theory Spec2Isabelle
  imports Complex_Main "HOL-Library.AList" "HOL-Library.Product_Lexorder"
begin

section \<open>Domain models (core/models.py)\<close>

text \<open>
  The Pydantic models of \<^verbatim>\<open>lintwise.core.models\<close>. Python strings are lists of
  characters with code points below 256; Python's unbounded integers are \<open>int\<close>; an
  optional field is an \<open>option\<close>. A confidence is a Python float restricted by the model
  to the interval from 0 to 1 (so never NaN); the code only compares and negates
  confidences, which is exact on floats, so they are taken as real numbers.
\<close>

datatype Severity = CRITICAL | WARNING | SUGGESTION | NITPICK

datatype ReviewCategory = LOGIC | READABILITY | PERFORMANCE | SECURITY

datatype RiskScore = RISK_LOW | RISK_MEDIUM | RISK_HIGH | RISK_CRITICAL

record ReviewComment =
  comment_file :: string
  line :: "int option"
  end_line :: "int option"
  severity :: Severity
  category :: ReviewCategory
  title :: string
  body :: string
  suggestion :: "string option"
  confidence :: real
  agent_name :: string

section \<open>Python string primitives used by the aggregator\<close>

text \<open>\<^verbatim>\<open>str(n)\<close> for an integer: decimal digits, a minus sign for negatives.\<close>

definition digit_char :: "nat \<Rightarrow> char" where
  "digit_char n = ''0123456789'' ! n"

function str_nat :: "nat \<Rightarrow> string" where
  "str_nat n = (if n < 10 then [digit_char n] else str_nat (n div 10) @ [digit_char (n mod 10)])"
  by pat_completeness auto
termination
  by (relation "measure id") auto

declare str_nat.simps [simp del]

definition str_int :: "int \<Rightarrow> string" where
  "str_int i = (if i < 0 then CHR ''-'' # str_nat (nat (- i)) else str_nat (nat i))"

text \<open>\<^verbatim>\<open>str(comment.line)\<close> for \<^verbatim>\<open>line: int | None\<close>.\<close>

definition str_line :: "int option \<Rightarrow> string" where
  "str_line l = (case l of None \<Rightarrow> ''None'' | Some i \<Rightarrow> str_int i)"

text \<open>
  \<^verbatim>\<open>str.lower()\<close> on code points below 256: the letters A to Z and the Latin-1
  capitals (192 to 222 except 215) move up by 32, which sets bit 5 of the code point.
\<close>

definition is_upper :: "char \<Rightarrow> bool" where
  "is_upper c = (let n = (of_char c :: nat) in
     (65 \<le> n \<and> n \<le> 90) \<or> (192 \<le> n \<and> n \<le> 222 \<and> n \<noteq> 215))"

fun set_bit5 :: "char \<Rightarrow> char" where
  "set_bit5 (Char b0 b1 b2 b3 b4 b5 b6 b7) = Char b0 b1 b2 b3 b4 True b6 b7"

definition lower_char :: "char \<Rightarrow> char" where
  "lower_char c = (if is_upper c then set_bit5 c else c)"

definition lower :: "string \<Rightarrow> string" where
  "lower s = map lower_char s"

text \<open>
  \<^verbatim>\<open>str.strip()\<close> removes leading and trailing whitespace; below 256 the whitespace
  code points are 9 to 13, 28 to 32, 133 and 160.
\<close>

definition is_space :: "char \<Rightarrow> bool" where
  "is_space c = (let n = (of_char c :: nat) in
     (9 \<le> n \<and> n \<le> 13) \<or> (28 \<le> n \<and> n \<le> 32) \<or> n = 133 \<or> n = 160)"

definition strip :: "string \<Rightarrow> string" where
  "strip s = rev (dropWhile is_space (rev (dropWhile is_space s)))"

section \<open>Aggregation (orchestrator/aggregator.py, core/constants.py)\<close>

text \<open>
  The dedup key is the formatted string
  \<^verbatim>\<open>f"{comment.file}:{comment.line}:{comment.title.lower().strip()}"\<close>.
\<close>

definition dedup_key :: "ReviewComment \<Rightarrow> string" where
  "dedup_key c = comment_file c @ '':'' @ str_line (line c) @ '':'' @ strip (lower (title c))"

text \<open>
  \<^verbatim>\<open>seen\<close> is a Python dict: it keeps its keys in insertion order, and assigning to a
  key that is present replaces the value in place. That is an association list with
  \<open>map_of\<close> for lookup and \<open>AList.update\<close> for assignment. \<open>dedup_step\<close> is one
  iteration of the loop over the comments.
\<close>

definition dedup_step :: "ReviewComment \<Rightarrow> (string \<times> ReviewComment) list \<Rightarrow> (string \<times> ReviewComment) list" where
  "dedup_step comment seen =
     (let key = dedup_key comment in
      case map_of seen key of
        Some old \<Rightarrow> if confidence comment > confidence old then AList.update key comment seen else seen
      | None \<Rightarrow> AList.update key comment seen)"

definition deduplicate_comments :: "ReviewComment list \<Rightarrow> ReviewComment list" where
  "deduplicate_comments comments = map snd (fold dedup_step comments [])"

text \<open>
  \<^verbatim>\<open>sorted\<close> is Python's stable sort; \<open>sort_key\<close> is the stable insertion sort of the
  list library. The key is the pair of the severity's position and the negated
  confidence, compared lexicographically as Python compares tuples.
\<close>

fun severity_order :: "Severity \<Rightarrow> nat" where
  "severity_order CRITICAL = 0"
| "severity_order WARNING = 1"
| "severity_order SUGGESTION = 2"
| "severity_order NITPICK = 3"

definition rank_key :: "ReviewComment \<Rightarrow> nat \<times> real" where
  "rank_key c = (severity_order (severity c), - confidence c)"

definition rank_comments :: "ReviewComment list \<Rightarrow> ReviewComment list" where
  "rank_comments comments = sort_key rank_key comments"

fun SEVERITY_WEIGHTS :: "Severity \<Rightarrow> int" where
  "SEVERITY_WEIGHTS CRITICAL = 10"
| "SEVERITY_WEIGHTS WARNING = 3"
| "SEVERITY_WEIGHTS SUGGESTION = 1"
| "SEVERITY_WEIGHTS NITPICK = 0"

definition RISK_THRESHOLDS_low :: int where "RISK_THRESHOLDS_low = 5"
definition RISK_THRESHOLDS_medium :: int where "RISK_THRESHOLDS_medium = 15"
definition RISK_THRESHOLDS_high :: int where "RISK_THRESHOLDS_high = 30"

definition total_weight :: "ReviewComment list \<Rightarrow> int" where
  "total_weight comments = sum_list (map (\<lambda>c. SEVERITY_WEIGHTS (severity c)) comments)"

definition compute_risk_score :: "ReviewComment list \<Rightarrow> RiskScore" where
  "compute_risk_score comments =
     (if total_weight comments > RISK_THRESHOLDS_high then RISK_CRITICAL
      else if total_weight comments > RISK_THRESHOLDS_medium then RISK_HIGH
      else if total_weight comments > RISK_THRESHOLDS_low then RISK_MEDIUM
      else RISK_LOW)"

definition aggregate_comments :: "ReviewComment list \<Rightarrow> ReviewComment list \<times> RiskScore" where
  "aggregate_comments comments =
     (let deduped = deduplicate_comments comments;
          ranked = rank_comments deduped;
          risk = compute_risk_score ranked
      in (ranked, risk))"

text \<open>The ordering of the risk levels: low, medium, high, critical.\<close>

fun risk_level :: "RiskScore \<Rightarrow> nat" where
  "risk_level RISK_LOW = 0"
| "risk_level RISK_MEDIUM = 1"
| "risk_level RISK_HIGH = 2"
| "risk_level RISK_CRITICAL = 3"

text \<open>
  The helper \<^verbatim>\<open>_comment\<close> of tests/unit/test_aggregator.py, which builds the comments
  of the test scenarios.
\<close>

definition test_comment :: "string \<Rightarrow> int option \<Rightarrow> Severity \<Rightarrow> string \<Rightarrow> real \<Rightarrow> ReviewComment" where
  "test_comment f l s t c =
     \<lparr>comment_file = f, line = l, end_line = None, severity = s, category = LOGIC, title = t,
      body = ''Description of the issue.'', suggestion = None, confidence = c,
      agent_name = ''test_agent''\<rparr>"

text \<open>
  Two notions used to state what deduplication keeps. \<open>first_best cs k w\<close>: the comment
  \<open>w\<close> occurs in \<open>cs\<close>, has key \<open>k\<close>, every comment with key \<open>k\<close> before that
  occurrence has strictly lower confidence, and none after it has higher confidence.
  \<open>seen_inv cs seen\<close> is the loop invariant of \<^verbatim>\<open>deduplicate_comments\<close> after the
  comments \<open>cs\<close> have been processed.
\<close>

definition first_best :: "ReviewComment list \<Rightarrow> string \<Rightarrow> ReviewComment \<Rightarrow> bool" where
  "first_best cs k w \<longleftrightarrow> dedup_key w = k \<and> (\<exists>pre post. cs = pre @ w # post \<and>
      (\<forall>e\<in>set pre. dedup_key e = k \<longrightarrow> confidence e < confidence w) \<and>
      (\<forall>e\<in>set post. dedup_key e = k \<longrightarrow> confidence e \<le> confidence w))"

definition seen_inv :: "ReviewComment list \<Rightarrow> (string \<times> ReviewComment) list \<Rightarrow> bool" where
  "seen_inv cs seen \<longleftrightarrow> distinct (map fst seen) \<and>
     (\<forall>(k, w)\<in>set seen. first_best cs k w) \<and>
     (\<forall>c\<in>set cs. dedup_key c \<in> fst ` set seen)"

section \<open>Exceptions (core/exceptions.py and the built-in classes the code meets)\<close>

text \<open>
  Exception classes: the built-in ones the code can meet, with \<^verbatim>\<open>asyncio.CancelledError\<close>
  (which derives from \<^verbatim>\<open>BaseException\<close>, not from \<^verbatim>\<open>Exception\<close>) and
  \<^verbatim>\<open>asyncio.TimeoutError\<close> (the built-in \<^verbatim>\<open>TimeoutError\<close>), the classes of
  core/exceptions.py, and \<open>Subclass n b\<close> for any other class, named \<open>n\<close>, that
  derives from the class \<open>b\<close>. \<^verbatim>\<open>KeyboardInterrupt\<close> and \<^verbatim>\<open>SystemExit\<close> are left out:
  the event loop re-raises them and stops, which ends the run of the loop and not only
  the call.
\<close>

datatype exc_class =
    BaseException | Exception | CancelledError | GeneratorExit
  | ArithmeticError | ZeroDivisionError | OverflowError
  | ValueError | TypeError | AttributeError | RuntimeError
  | LookupError | KeyError | OSError | TimeoutError
  | LintwiseError | GitHubError | GitHubAuthError | GitHubRateLimitError | PRNotFoundError
  | LLMError | LLMRateLimitError | LLMContextOverflowError | LLMResponseParseError
  | PipelineError | AgentTimeoutError | DiffTooLargeError
  | ValidationError | InvalidPRURLError
  | Subclass string exc_class

text \<open>The class itself followed by its base classes, up to \<^verbatim>\<open>BaseException\<close>.\<close>

fun mro :: "exc_class \<Rightarrow> exc_class list" where
  "mro BaseException = [BaseException]"
| "mro Exception = [Exception, BaseException]"
| "mro CancelledError = [CancelledError, BaseException]"
| "mro GeneratorExit = [GeneratorExit, BaseException]"
| "mro ArithmeticError = [ArithmeticError, Exception, BaseException]"
| "mro ZeroDivisionError = [ZeroDivisionError, ArithmeticError, Exception, BaseException]"
| "mro OverflowError = [OverflowError, ArithmeticError, Exception, BaseException]"
| "mro ValueError = [ValueError, Exception, BaseException]"
| "mro TypeError = [TypeError, Exception, BaseException]"
| "mro AttributeError = [AttributeError, Exception, BaseException]"
| "mro RuntimeError = [RuntimeError, Exception, BaseException]"
| "mro LookupError = [LookupError, Exception, BaseException]"
| "mro KeyError = [KeyError, LookupError, Exception, BaseException]"
| "mro OSError = [OSError, Exception, BaseException]"
| "mro TimeoutError = [TimeoutError, OSError, Exception, BaseException]"
| "mro LintwiseError = [LintwiseError, Exception, BaseException]"
| "mro GitHubError = [GitHubError, LintwiseError, Exception, BaseException]"
| "mro GitHubAuthError = [GitHubAuthError, GitHubError, LintwiseError, Exception, BaseException]"
| "mro GitHubRateLimitError =
     [GitHubRateLimitError, GitHubError, LintwiseError, Exception, BaseException]"
| "mro PRNotFoundError = [PRNotFoundError, GitHubError, LintwiseError, Exception, BaseException]"
| "mro LLMError = [LLMError, LintwiseError, Exception, BaseException]"
| "mro LLMRateLimitError = [LLMRateLimitError, LLMError, LintwiseError, Exception, BaseException]"
| "mro LLMContextOverflowError =
     [LLMContextOverflowError, LLMError, LintwiseError, Exception, BaseException]"
| "mro LLMResponseParseError =
     [LLMResponseParseError, LLMError, LintwiseError, Exception, BaseException]"
| "mro PipelineError = [PipelineError, LintwiseError, Exception, BaseException]"
| "mro AgentTimeoutError = [AgentTimeoutError, PipelineError, LintwiseError, Exception, BaseException]"
| "mro DiffTooLargeError = [DiffTooLargeError, PipelineError, LintwiseError, Exception, BaseException]"
| "mro ValidationError = [ValidationError, LintwiseError, Exception, BaseException]"
| "mro InvalidPRURLError =
     [InvalidPRURLError, ValidationError, LintwiseError, Exception, BaseException]"
| "mro (Subclass n b) = Subclass n b # mro b"

text \<open>The name of a class, as \<^verbatim>\<open>type(e).__name__\<close> gives it.\<close>

fun class_name :: "exc_class \<Rightarrow> string" where
  "class_name BaseException = ''BaseException''"
| "class_name Exception = ''Exception''"
| "class_name CancelledError = ''CancelledError''"
| "class_name GeneratorExit = ''GeneratorExit''"
| "class_name ArithmeticError = ''ArithmeticError''"
| "class_name ZeroDivisionError = ''ZeroDivisionError''"
| "class_name OverflowError = ''OverflowError''"
| "class_name ValueError = ''ValueError''"
| "class_name TypeError = ''TypeError''"
| "class_name AttributeError = ''AttributeError''"
| "class_name RuntimeError = ''RuntimeError''"
| "class_name LookupError = ''LookupError''"
| "class_name KeyError = ''KeyError''"
| "class_name OSError = ''OSError''"
| "class_name TimeoutError = ''TimeoutError''"
| "class_name LintwiseError = ''LintwiseError''"
| "class_name GitHubError = ''GitHubError''"
| "class_name GitHubAuthError = ''GitHubAuthError''"
| "class_name GitHubRateLimitError = ''GitHubRateLimitError''"
| "class_name PRNotFoundError = ''PRNotFoundError''"
| "class_name LLMError = ''LLMError''"
| "class_name LLMRateLimitError = ''LLMRateLimitError''"
| "class_name LLMContextOverflowError = ''LLMContextOverflowError''"
| "class_name LLMResponseParseError = ''LLMResponseParseError''"
| "class_name PipelineError = ''PipelineError''"
| "class_name AgentTimeoutError = ''AgentTimeoutError''"
| "class_name DiffTooLargeError = ''DiffTooLargeError''"
| "class_name ValidationError = ''ValidationError''"
| "class_name InvalidPRURLError = ''InvalidPRURLError''"
| "class_name (Subclass n b) = n"

text \<open>
  An exception value is its class and the text that \<^verbatim>\<open>str(e)\<close> gives, which is empty
  when the exception is raised without a message (\<^verbatim>\<open>LintwiseError.__init__\<close> has
  \<^verbatim>\<open>message: str = ""\<close>).
\<close>

datatype exn = Exn exc_class string

fun class_of :: "exn \<Rightarrow> exc_class" where
  "class_of (Exn c m) = c"

fun str_exn :: "exn \<Rightarrow> string" where
  "str_exn (Exn c m) = m"

text \<open>
  \<^verbatim>\<open>isinstance(e, classes)\<close>, which decides whether an \<^verbatim>\<open>except\<close> clause applies;
  \<^verbatim>\<open>except Exception\<close> is \<open>isinstance e [Exception]\<close>.
\<close>

definition isinstance :: "exn \<Rightarrow> exc_class list \<Rightarrow> bool" where
  "isinstance e classes = (\<exists>c\<in>set classes. c \<in> set (mro (class_of e)))"

text \<open>
  The conversion of a Python integer to a float, which arithmetic between an integer
  and a float performs first: it raises \<^verbatim>\<open>OverflowError\<close> when the integer rounds
  beyond the largest float, that is from \<open>2 ^ 1024 - 2 ^ 970\<close> on in absolute value.
  The value of a float is taken as a real number; rounding is not modelled.
\<close>

definition FLOAT_INT_LIMIT :: int where
  "FLOAT_INT_LIMIT = 2 ^ 1024 - 2 ^ 970"

definition int_too_large :: exn where
  "int_too_large = Exn OverflowError ''int too large to convert to float''"

definition int_to_float :: "int \<Rightarrow> exn + real" where
  "int_to_float n = (if \<bar>n\<bar> \<ge> FLOAT_INT_LIMIT then Inl int_too_large else Inr (real_of_int n))"

section \<open>Retry with exponential backoff (orchestrator/retry.py)\<close>

text \<open>
  The operation is given by the outcome of each of its invocations, counted from zero:
  \<open>func n\<close> is \<open>Inr v\<close> when the invocation returns \<open>v\<close> and \<open>Inl e\<close> when it raises
  \<open>e\<close>. The handler also reads \<^verbatim>\<open>func.__name__\<close> for its log line: the callable has
  a name, or it is an object of a type without that attribute (a
  \<^verbatim>\<open>functools.partial\<close>, an instance with \<^verbatim>\<open>__call__\<close>), and reading it raises
  \<^verbatim>\<open>AttributeError\<close>. A run of the executor yields its own outcome together with the
  sequence of invocations and sleeps it performed. \<^verbatim>\<open>base_delay\<close> and \<^verbatim>\<open>max_delay\<close>
  are floats, as annotated.
\<close>

datatype callable_name = Named string | Unnamed string

definition no_name_error :: "string \<Rightarrow> exn" where
  "no_name_error type_name =
     Exn AttributeError ([CHR 0x27] @ type_name @ [CHR 0x27] @ '' object has no attribute '' @
       [CHR 0x27] @ ''__name__'' @ [CHR 0x27])"

datatype retry_event = Invoke | Sleep real

text \<open>
  \<^verbatim>\<open>min(base_delay * (2 ** attempt), max_delay)\<close>: the integer \<^verbatim>\<open>2 ** attempt\<close> is
  converted to a float for the product, which raises \<^verbatim>\<open>OverflowError\<close> from attempt
  1024 on.
\<close>

definition backoff_delay :: "real \<Rightarrow> real \<Rightarrow> nat \<Rightarrow> exn + real" where
  "backoff_delay base_delay max_delay attempt =
     (case int_to_float (2 ^ attempt) of
        Inl e \<Rightarrow> Inl e
      | Inr p \<Rightarrow> Inr (min (base_delay * p) max_delay))"

text \<open>
  The body of \<^verbatim>\<open>for attempt in range(max_retries + 1)\<close>, by recursion on the attempts
  that remain; the last equation is the code after the loop. In the handler, the
  exhausted branch reads the name and re-raises; the other branch computes the delay,
  reads the name, sleeps and goes on.
\<close>

fun retry_attempts ::
  "(nat \<Rightarrow> exn + 'a) \<Rightarrow> callable_name \<Rightarrow> int \<Rightarrow> real \<Rightarrow> real \<Rightarrow> exc_class list \<Rightarrow> nat list \<Rightarrow>
   exn option \<Rightarrow> retry_event list \<Rightarrow> (exn + 'a) \<times> retry_event list" where
  "retry_attempts func func_name max_retries base_delay max_delay retryable_exceptions
      (attempt # rest) last_exception events =
     (case func attempt of
        Inr v \<Rightarrow> (Inr v, events @ [Invoke])
      | Inl e \<Rightarrow>
          if isinstance e retryable_exceptions then
            (if int attempt \<ge> max_retries then
               (case func_name of
                  Unnamed type_name \<Rightarrow> (Inl (no_name_error type_name), events @ [Invoke])
                | Named n \<Rightarrow> (Inl e, events @ [Invoke]))
             else
               (case backoff_delay base_delay max_delay attempt of
                  Inl overflow \<Rightarrow> (Inl overflow, events @ [Invoke])
                | Inr delay \<Rightarrow>
                    (case func_name of
                       Unnamed type_name \<Rightarrow> (Inl (no_name_error type_name), events @ [Invoke])
                     | Named n \<Rightarrow>
                         retry_attempts func func_name max_retries base_delay max_delay
                           retryable_exceptions rest (Some e)
                           (events @ [Invoke, Sleep delay]))))
          else (Inl e, events @ [Invoke]))"
| "retry_attempts func func_name max_retries base_delay max_delay retryable_exceptions []
      last_exception events =
     (case last_exception of
        Some e \<Rightarrow> (Inl e, events)
      | None \<Rightarrow> (Inl (Exn RuntimeError ''Unexpected retry loop exit''), events))"

definition retry_with_backoff ::
  "(nat \<Rightarrow> exn + 'a) \<Rightarrow> callable_name \<Rightarrow> int \<Rightarrow> real \<Rightarrow> real \<Rightarrow> exc_class list \<Rightarrow>
     (exn + 'a) \<times> retry_event list" where
  "retry_with_backoff func func_name max_retries base_delay max_delay retryable_exceptions =
     retry_attempts func func_name max_retries base_delay max_delay retryable_exceptions
       [0..<nat (max_retries + 1)] None []"

text \<open>
  The events of the attempts \<open>a\<close> up to \<open>k\<close> (exclusive) when each of them fails and is
  retried: an invocation, then the sleep \<open>min(base_delay * 2 ** attempt, max_delay)\<close>.
\<close>

definition retried :: "real \<Rightarrow> real \<Rightarrow> nat \<Rightarrow> nat \<Rightarrow> retry_event list" where
  "retried base_delay max_delay a k =
     concat (map (\<lambda>attempt. [Invoke, Sleep (min (base_delay * 2 ^ attempt) max_delay)]) [a..<k])"

definition invocations :: "retry_event list \<Rightarrow> nat" where
  "invocations events = length (filter (\<lambda>ev. ev = Invoke) events)"

section \<open>Token-bucket rate limiter (llm/rate_limiter.py)\<close>

text \<open>
  The state of a \<^verbatim>\<open>TokenBucketRateLimiter\<close>. The bucket levels and the clock are
  Python floats, taken as real numbers; \<open>semaphore\<close> is the number of free
  concurrency slots.
\<close>

record limiter =
  rpm :: int
  tpm :: int
  request_tokens :: real
  token_tokens :: real
  last_refill :: real
  semaphore :: nat

text \<open>
  The constructor, with \<open>now\<close> the reading of the monotonic clock: it creates the
  semaphore, which raises \<^verbatim>\<open>ValueError\<close> for a negative value, and fills both buckets
  with \<^verbatim>\<open>float(rpm)\<close> and \<^verbatim>\<open>float(tpm)\<close>.
\<close>

definition TokenBucketRateLimiter :: "int \<Rightarrow> int \<Rightarrow> int \<Rightarrow> real \<Rightarrow> exn + limiter" where
  "TokenBucketRateLimiter rpm' tpm' max_concurrent now =
     (if max_concurrent < 0 then Inl (Exn ValueError ''Semaphore initial value must be >= 0'')
      else case int_to_float rpm' of
        Inl e \<Rightarrow> Inl e
      | Inr r \<Rightarrow>
          (case int_to_float tpm' of
             Inl e \<Rightarrow> Inl e
           | Inr t \<Rightarrow>
               Inr \<lparr>rpm = rpm', tpm = tpm', request_tokens = r, token_tokens = t,
                    last_refill = now, semaphore = nat max_concurrent\<rparr>))"

text \<open>
  \<^verbatim>\<open>_refill\<close>, with \<open>now\<close> the reading of \<^verbatim>\<open>time.monotonic()\<close>. The products
  \<^verbatim>\<open>elapsed * self._rpm\<close> and \<^verbatim>\<open>elapsed * self._tpm\<close> convert the rates to floats;
  when that raises, the assignments before it have been made (\<open>Inl\<close> carries the
  exception and the state left behind).
\<close>

definition refill :: "real \<Rightarrow> limiter \<Rightarrow> (exn \<times> limiter) + limiter" where
  "refill now s =
     (let elapsed = now - last_refill s;
          s1 = s\<lparr>last_refill := now\<rparr> in
      case int_to_float (rpm s) of
        Inl e \<Rightarrow> Inl (e, s1)
      | Inr r \<Rightarrow>
          (let s2 = s1\<lparr>request_tokens := min (real_of_int (rpm s)) (request_tokens s + elapsed * r / 60)\<rparr> in
           case int_to_float (tpm s) of
             Inl e \<Rightarrow> Inl (e, s2)
           | Inr t \<Rightarrow>
               Inr (s2\<lparr>token_tokens := min (real_of_int (tpm s)) (token_tokens s + elapsed * t / 60)\<rparr>)))"

text \<open>
  \<^verbatim>\<open>max(0.1, min(5.0, estimated_tokens / (self._tpm / 60)))\<close>. The quotient of the
  integers \<^verbatim>\<open>self._tpm / 60\<close> raises \<^verbatim>\<open>OverflowError\<close> when it rounds beyond the
  largest float; the division then converts \<^verbatim>\<open>estimated_tokens\<close> to a float, which
  raises \<^verbatim>\<open>OverflowError\<close> when it is too large, and raises
  \<^verbatim>\<open>ZeroDivisionError\<close> when the divisor is 0, that is when \<^verbatim>\<open>tpm\<close> is 0.
\<close>

definition wait_time :: "limiter \<Rightarrow> int \<Rightarrow> exn + real" where
  "wait_time s estimated_tokens =
     (if \<bar>tpm s\<bar> \<ge> 60 * FLOAT_INT_LIMIT then
        Inl (Exn OverflowError ''integer division result too large for a float'')
      else case int_to_float estimated_tokens of
        Inl e \<Rightarrow> Inl e
      | Inr tokens \<Rightarrow>
          if real_of_int (tpm s) / 60 = 0 then Inl (Exn ZeroDivisionError ''float division by zero'')
          else Inr (max (1 / 10) (min 5 (tokens / (real_of_int (tpm s) / 60)))))"

text \<open>
  One pass through the body of \<^verbatim>\<open>while True\<close> in \<^verbatim>\<open>acquire\<close>: the budget is granted
  and the loop left, or the caller sleeps for the wait time and polls again, or an
  exception leaves the loop. In the granting branch \<^verbatim>\<open>self._token_tokens -= estimated_tokens\<close>
  converts \<^verbatim>\<open>estimated_tokens\<close> to a float after the request bucket has been
  decremented.
\<close>

datatype poll = Granted limiter | Backoff real limiter | Failed exn limiter

definition acquire_poll :: "real \<Rightarrow> int \<Rightarrow> limiter \<Rightarrow> poll" where
  "acquire_poll now estimated_tokens s =
     (case refill now s of
        Inl (e, s') \<Rightarrow> Failed e s'
      | Inr s1 \<Rightarrow>
          if request_tokens s1 \<ge> 1 \<and> token_tokens s1 \<ge> real_of_int estimated_tokens then
            (let s2 = s1\<lparr>request_tokens := request_tokens s1 - 1\<rparr> in
             case int_to_float estimated_tokens of
               Inl e \<Rightarrow> Failed e s2
             | Inr tokens \<Rightarrow> Granted (s2\<lparr>token_tokens := token_tokens s1 - tokens\<rparr>))
          else
            (case wait_time s1 estimated_tokens of
               Inl e \<Rightarrow> Failed e s1
             | Inr w \<Rightarrow> Backoff w s1))"

text \<open>
  The polling loop. \<open>clock n\<close> is the reading of the monotonic clock in the pass
  number \<open>n\<close>; nothing is assumed about it. The loop may run forever, which is the
  value \<open>None\<close>; \<open>Some (Inl e)\<close> is an exception leaving the loop.
\<close>

partial_function (option) acquire_loop :: "(nat \<Rightarrow> real) \<Rightarrow> int \<Rightarrow> nat \<Rightarrow> limiter \<Rightarrow> (exn + limiter) option" where
  "acquire_loop clock estimated_tokens n s =
     (case acquire_poll (clock n) estimated_tokens s of
        Granted s' \<Rightarrow> Some (Inr s')
      | Failed e s' \<Rightarrow> Some (Inl e)
      | Backoff w s' \<Rightarrow> acquire_loop clock estimated_tokens (Suc n) s')"

text \<open>
  \<^verbatim>\<open>acquire\<close>: the polling loop, then \<^verbatim>\<open>await self._semaphore.acquire()\<close>, which takes
  a free slot or, when there is none, waits for a release that only another task can
  perform (\<open>None\<close>: this call does not return by itself).
\<close>

definition acquire :: "(nat \<Rightarrow> real) \<Rightarrow> int \<Rightarrow> limiter \<Rightarrow> (exn + limiter) option" where
  "acquire clock estimated_tokens s =
     (case acquire_loop clock estimated_tokens 0 s of
        None \<Rightarrow> None
      | Some (Inl e) \<Rightarrow> Some (Inl e)
      | Some (Inr s') \<Rightarrow>
          if semaphore s' > 0 then Some (Inr (s'\<lparr>semaphore := semaphore s' - 1\<rparr>)) else None)"

text \<open>
  The notions of the specification's sentence on the backoff, which have no counterpart
  in the source: the token deficit is the number of tokens still missing from the
  bucket, and the interval is a multiple \<open>c\<close> of it, kept between 0.1 and 5 seconds.
\<close>

definition token_deficit :: "limiter \<Rightarrow> int \<Rightarrow> real" where
  "token_deficit s estimated_tokens = max 0 (real_of_int estimated_tokens - token_tokens s)"

definition deficit_backoff :: "real \<Rightarrow> real \<Rightarrow> real" where
  "deficit_backoff c deficit = max (1 / 10) (min 5 (c * deficit))"

text \<open>A limiter whose rates are within the range of a float, as the constructor leaves it.\<close>

definition rates_in_range :: "limiter \<Rightarrow> bool" where
  "rates_in_range s \<longleftrightarrow> \<bar>rpm s\<bar> < FLOAT_INT_LIMIT \<and> \<bar>tpm s\<bar> < FLOAT_INT_LIMIT"

text \<open>The state after a refill whose conversions succeed.\<close>

definition refilled :: "real \<Rightarrow> limiter \<Rightarrow> limiter" where
  "refilled now s =
     s\<lparr>last_refill := now,
       request_tokens := min (real_of_int (rpm s))
          (request_tokens s + (now - last_refill s) * real_of_int (rpm s) / 60),
       token_tokens := min (real_of_int (tpm s))
          (token_tokens s + (now - last_refill s) * real_of_int (tpm s) / 60)\<rparr>"

section \<open>Review pipeline (core/models.py, llm/base.py, agents, orchestrator/pipeline.py)\<close>

datatype FileStatus = ADDED | MODIFIED | DELETED | RENAMED

record HunkRange =
  start_line :: int
  line_count :: int
  hunk_content :: string

record FileChange =
  filename :: string
  status :: FileStatus
  patch :: string
  additions :: int
  deletions :: int
  language :: "string option"
  hunks :: "HunkRange list"

record PRDiff =
  repo_owner :: string
  repo_name :: string
  pr_number :: int
  pr_title :: string
  description :: string
  base_branch :: string
  head_branch :: string
  files :: "FileChange list"
  raw_url :: "string option"

record LLMResponse =
  content :: string
  response_prompt_tokens :: int
  response_completion_tokens :: int
  model :: string

record AgentMetrics =
  metrics_agent_name :: string
  duration_ms :: int
  prompt_tokens :: int
  completion_tokens :: int
  files_analyzed :: int
  comments_produced :: int
  error :: "string option"

text \<open>
  \<^verbatim>\<open>ReviewResult\<close> without its generated fields \<^verbatim>\<open>id\<close> and \<^verbatim>\<open>created_at\<close>.
\<close>

record ReviewResult =
  pr_diff :: PRDiff
  comments :: "ReviewComment list"
  summary :: string
  risk_score :: RiskScore
  agent_metrics :: "AgentMetrics list"
  total_duration_ms :: int

text \<open>
  What awaiting a coroutine under \<^verbatim>\<open>asyncio.wait_for\<close> ends in. The coroutine returns
  a value or raises an exception (also when it does so after ignoring the
  cancellation of the timeout, since \<^verbatim>\<open>wait_for\<close> waits for the cancelled coroutine
  to finish); or it is still pending at the timeout and ends when it is cancelled; or
  it never ends.
\<close>

datatype 'a awaited = Done 'a | Raise exn | Pending | Never

text \<open>
  An \<^verbatim>\<open>LLMProvider\<close>: \<open>complete llm messages t\<close> is what the call
  \<^verbatim>\<open>llm.complete(messages, ...)\<close> ends in when the analysis that makes it is awaited
  with the timeout of \<open>t\<close> seconds. Any function is a provider, so nothing is assumed
  about the upstream service.
\<close>

record LLMProvider =
  complete :: "(string \<times> string) list \<Rightarrow> real \<Rightarrow> LLMResponse awaited"

text \<open>
  A \<^verbatim>\<open>ReviewAgent\<close>. The subclasses implement \<^verbatim>\<open>build_prompt\<close>, which may raise;
  \<open>parse_response\<close> is the method \<^verbatim>\<open>_parse_response(content, filename)\<close>, which
  returns the comments or raises. Its JSON decoding and the validation of each entry
  are not modelled: any function is allowed. The code calls \<^verbatim>\<open>agent.analyze\<close> by
  dynamic dispatch: \<open>analyze_override\<close> is \<open>None\<close> for a class that inherits
  \<^verbatim>\<open>ReviewAgent.analyze\<close>, as the four classes of the repository do, and the method of
  a subclass that overrides it otherwise.
\<close>

record ReviewAgent =
  name :: string
  agent_category :: string
  build_prompt :: "FileChange \<Rightarrow> PRDiff \<Rightarrow> exn + string"
  parse_response :: "string \<Rightarrow> string \<Rightarrow> exn + ReviewComment list"
  llm :: LLMProvider
  analyze_override ::
    "(FileChange \<Rightarrow> PRDiff \<Rightarrow> real \<Rightarrow> (ReviewComment list \<times> AgentMetrics) awaited) option"

definition newline :: string where
  "newline = [CHR 0x0A]"

definition quoted :: "string \<Rightarrow> string" where
  "quoted s = [CHR 0x22] @ s @ [CHR 0x22]"

definition get_system_prompt :: "ReviewAgent \<Rightarrow> string" where
  "get_system_prompt self =
     ''You are an expert code reviewer specializing in '' @ agent_category self @ '' analysis. '' @
     ''Analyze the provided code diff and identify issues.'' @ newline @ newline @
     ''Respond ONLY with a JSON array of findings. Each finding must have:'' @ newline @
     ''- '' @ quoted ''title'' @ '': Short descriptive title'' @ newline @
     ''- '' @ quoted ''body'' @ '': Detailed explanation in Markdown'' @ newline @
     ''- '' @ quoted ''line'' @ '': Line number in the new file (null if general)'' @ newline @
     ''- '' @ quoted ''severity'' @ '': One of '' @ quoted ''critical'' @ '', '' @ quoted ''warning'' @
        '', '' @ quoted ''suggestion'' @ '', '' @ quoted ''nitpick'' @ newline @
     ''- '' @ quoted ''confidence'' @ '': Float 0.0-1.0'' @ newline @
     ''- '' @ quoted ''suggestion'' @ '': Optional code fix suggestion (null if none)'' @ newline @ newline @
     ''Rules:'' @ newline @
     ''- ONLY flag issues visible in the diff, not imagined problems'' @ newline @
     ''- Be specific about WHY something is an issue'' @ newline @
     ''- Provide actionable suggestions when possible'' @ newline @
     ''- If no issues found, return an empty array: []'' @ newline"

text \<open>The telemetry of the \<^verbatim>\<open>except Exception as e\<close> branch of \<^verbatim>\<open>analyze\<close>.\<close>

definition failed_metrics :: "ReviewAgent \<Rightarrow> int \<Rightarrow> exn \<Rightarrow> AgentMetrics" where
  "failed_metrics self duration e =
     \<lparr>metrics_agent_name = name self, duration_ms = duration, prompt_tokens = 0,
      completion_tokens = 0, files_analyzed = 1, comments_produced = 0,
      error = Some (str_exn e)\<rparr>"

text \<open>
  The handler \<^verbatim>\<open>except Exception as e\<close>: an exception that derives from
  \<^verbatim>\<open>Exception\<close> becomes an empty list of comments and the failure record; any other
  one propagates.
\<close>

definition contain :: "ReviewAgent \<Rightarrow> int \<Rightarrow> exn \<Rightarrow> (ReviewComment list \<times> AgentMetrics) awaited" where
  "contain self duration e =
     (if isinstance e [Exception] then Done ([], failed_metrics self duration e) else Raise e)"

text \<open>
  \<^verbatim>\<open>ReviewAgent.analyze\<close>, awaited with the timeout of \<open>time_allowed\<close> seconds. Its
  only suspension point is the upstream call, so it is pending, or never ends, exactly
  when that call is. The cancellation at the timeout is a \<^verbatim>\<open>CancelledError\<close>, which
  the handler does not catch. \<open>duration\<close> is the elapsed time it measures with the
  performance counter.
\<close>

definition analyze ::
  "ReviewAgent \<Rightarrow> FileChange \<Rightarrow> PRDiff \<Rightarrow> real \<Rightarrow> int \<Rightarrow> (ReviewComment list \<times> AgentMetrics) awaited" where
  "analyze self file_change context time_allowed duration =
     (case build_prompt self file_change context of
        Inl e \<Rightarrow> contain self duration e
      | Inr prompt \<Rightarrow>
          (case complete (llm self)
                  [(''system'', get_system_prompt self), (''user'', prompt)] time_allowed of
             Pending \<Rightarrow> Pending
           | Never \<Rightarrow> Never
           | Raise e \<Rightarrow> contain self duration e
           | Done response \<Rightarrow>
               (case parse_response self (content response) (filename file_change) of
                  Inl e \<Rightarrow> contain self duration e
                | Inr found \<Rightarrow>
                    Done (found,
                      \<lparr>metrics_agent_name = name self, duration_ms = duration,
                       prompt_tokens = response_prompt_tokens response,
                       completion_tokens = response_completion_tokens response,
                       files_analyzed = 1, comments_produced = int (length found),
                       error = None\<rparr>))))"

text \<open>The call \<^verbatim>\<open>agent.analyze(file_change, context)\<close>: the method of the agent's class.\<close>

definition call_analyze ::
  "ReviewAgent \<Rightarrow> FileChange \<Rightarrow> PRDiff \<Rightarrow> real \<Rightarrow> int \<Rightarrow> (ReviewComment list \<times> AgentMetrics) awaited" where
  "call_analyze agent file_change context time_allowed duration =
     (case analyze_override agent of
        None \<Rightarrow> analyze agent file_change context time_allowed duration
      | Some method \<Rightarrow> method file_change context time_allowed)"

text \<open>
  \<^verbatim>\<open>_run_agent_on_file\<close>. With a timeout of 0 or less, \<^verbatim>\<open>asyncio.wait_for\<close> cancels the
  analysis before it starts and raises \<^verbatim>\<open>TimeoutError\<close>. Otherwise it returns what the
  analysis returns, raises what it raises, and raises \<^verbatim>\<open>TimeoutError\<close> when the
  analysis was pending at the timeout and ended when cancelled. The handler
  \<^verbatim>\<open>except asyncio.TimeoutError\<close> makes the timeout record; it also catches a
  \<^verbatim>\<open>TimeoutError\<close> raised by the analysis itself, and any other exception propagates.
  \<open>None\<close>: the analysis never ends, and neither does the call. \<open>str_float\<close> is
  Python's formatting of a float inside the f-string.
\<close>

definition timeout_metrics :: "(real \<Rightarrow> string) \<Rightarrow> ReviewAgent \<Rightarrow> real \<Rightarrow> AgentMetrics" where
  "timeout_metrics str_float agent timeout =
     \<lparr>metrics_agent_name = name agent, duration_ms = 0, prompt_tokens = 0,
      completion_tokens = 0, files_analyzed = 1, comments_produced = 0,
      error = Some (''Timeout after '' @ str_float timeout @ ''s'')\<rparr>"

definition run_agent_on_file ::
  "(real \<Rightarrow> string) \<Rightarrow> ReviewAgent \<Rightarrow> FileChange \<Rightarrow> PRDiff \<Rightarrow> real \<Rightarrow> int \<Rightarrow>
     (exn + (ReviewComment list \<times> AgentMetrics)) option" where
  "run_agent_on_file str_float agent file_change context timeout duration =
     (if timeout \<le> 0 then Some (Inr ([], timeout_metrics str_float agent timeout))
      else
        case call_analyze agent file_change context timeout duration of
          Done r \<Rightarrow> Some (Inr r)
        | Pending \<Rightarrow> Some (Inr ([], timeout_metrics str_float agent timeout))
        | Never \<Rightarrow> None
        | Raise e \<Rightarrow>
            if isinstance e [TimeoutError]
            then Some (Inr ([], timeout_metrics str_float agent timeout))
            else Some (Inl e))"

text \<open>
  What the pipeline takes from its environment: the formatting of floats, the prompt
  templates of the four registered agents (by agent name; an f-string over fields that
  are always present, so it does not raise), the response parser of the base class (by
  agent name and category), the duration measured in the task number \<open>i\<close>, and the
  total duration.
\<close>

record runtime =
  str_float :: "real \<Rightarrow> string"
  render_prompt :: "string \<Rightarrow> FileChange \<Rightarrow> PRDiff \<Rightarrow> string"
  base_parse_response :: "string \<Rightarrow> string \<Rightarrow> string \<Rightarrow> string \<Rightarrow> exn + ReviewComment list"
  task_duration :: "nat \<Rightarrow> int"
  total_ms :: int

definition registered_agent :: "runtime \<Rightarrow> string \<Rightarrow> string \<Rightarrow> LLMProvider \<Rightarrow> ReviewAgent" where
  "registered_agent rt agent_name' category' provider =
     \<lparr>name = agent_name', agent_category = category',
      build_prompt = (\<lambda>file_change context. Inr (render_prompt rt agent_name' file_change context)),
      parse_response = base_parse_response rt agent_name' category',
      llm = provider, analyze_override = None\<rparr>"

definition LogicAgent :: "runtime \<Rightarrow> LLMProvider \<Rightarrow> ReviewAgent" where
  "LogicAgent rt = registered_agent rt ''logic_agent'' ''logic''"

definition ReadabilityAgent :: "runtime \<Rightarrow> LLMProvider \<Rightarrow> ReviewAgent" where
  "ReadabilityAgent rt = registered_agent rt ''readability_agent'' ''readability''"

definition PerformanceAgent :: "runtime \<Rightarrow> LLMProvider \<Rightarrow> ReviewAgent" where
  "PerformanceAgent rt = registered_agent rt ''performance_agent'' ''performance''"

definition SecurityAgent :: "runtime \<Rightarrow> LLMProvider \<Rightarrow> ReviewAgent" where
  "SecurityAgent rt = registered_agent rt ''security_agent'' ''security''"

definition create_all_agents :: "runtime \<Rightarrow> LLMProvider \<Rightarrow> ReviewAgent list" where
  "create_all_agents rt provider =
     [LogicAgent rt provider, ReadabilityAgent rt provider, PerformanceAgent rt provider,
      SecurityAgent rt provider]"

text \<open>The task matrix: the outer loop runs over the files, the inner one over the agents.\<close>

definition build_tasks :: "PRDiff \<Rightarrow> ReviewAgent list \<Rightarrow> (ReviewAgent \<times> FileChange) list" where
  "build_tasks diff agents = concat (map (\<lambda>f. map (\<lambda>agent. (agent, f)) agents) (files diff))"

text \<open>
  The runs of the tasks, in the order of the tasks; the task number \<open>i\<close> measures the
  duration \<open>task_duration rt i\<close>.
\<close>

definition task_runs ::
  "runtime \<Rightarrow> PRDiff \<Rightarrow> real \<Rightarrow> (ReviewAgent \<times> FileChange) list \<Rightarrow>
     (exn + (ReviewComment list \<times> AgentMetrics)) option list" where
  "task_runs rt diff timeout tasks =
     map (\<lambda>(i, agent, f). run_agent_on_file (str_float rt) agent f diff timeout (task_duration rt i))
       (zip [0..<length tasks] tasks)"

text \<open>
  The loop over the gathered results. A result that is an instance of \<^verbatim>\<open>Exception\<close>
  is logged and skipped; any other result is unpacked into comments and telemetry
  record, which raises \<^verbatim>\<open>TypeError\<close> when the result is an exception that does not
  derive from \<^verbatim>\<open>Exception\<close>.
\<close>

definition cannot_unpack :: "exn \<Rightarrow> exn" where
  "cannot_unpack e =
     Exn TypeError (''cannot unpack non-iterable '' @ class_name (class_of e) @ '' object'')"

fun collect ::
  "(exn + (ReviewComment list \<times> AgentMetrics)) list \<Rightarrow> ReviewComment list \<times> AgentMetrics list \<Rightarrow>
     exn + (ReviewComment list \<times> AgentMetrics list)" where
  "collect [] acc = Inr acc"
| "collect (Inl e # results) (all_comments, all_metrics) =
     (if isinstance e [Exception] then collect results (all_comments, all_metrics)
      else Inl (cannot_unpack e))"
| "collect (Inr (found, metrics) # results) (all_comments, all_metrics) =
     collect results (all_comments @ found, all_metrics @ [metrics])"

text \<open>
  \<^verbatim>\<open>run_review\<close>. \<^verbatim>\<open>asyncio.Semaphore(max_concurrent)\<close> raises \<^verbatim>\<open>ValueError\<close> for a
  negative value, and with the value 0 no task ever acquires the semaphore, so that
  \<^verbatim>\<open>gather\<close> does not return when there is a task (\<open>None\<close>). With at least one slot
  every task runs; \<^verbatim>\<open>gather\<close> returns when all tasks have ended, so it does not
  return when one of them never ends, and it gives the results in the order of the
  tasks, the exception for a task that raised. The result of a task does not depend on
  the interleaving.
\<close>

definition run_review ::
  "runtime \<Rightarrow> PRDiff \<Rightarrow> LLMProvider \<Rightarrow> ReviewAgent list option \<Rightarrow> int \<Rightarrow> real \<Rightarrow>
     (exn + ReviewResult) option" where
  "run_review rt diff provider agents max_concurrent timeout_per_agent =
     (let agents' = (case agents of None \<Rightarrow> create_all_agents rt provider | Some given \<Rightarrow> given) in
      if max_concurrent < 0 then Some (Inl (Exn ValueError ''Semaphore initial value must be >= 0''))
      else
        let tasks = build_tasks diff agents' in
        if max_concurrent = 0 \<and> tasks \<noteq> [] then None
        else
          case those (task_runs rt diff timeout_per_agent tasks) of
            None \<Rightarrow> None
          | Some results \<Rightarrow>
              (case collect results ([], []) of
                 Inl e \<Rightarrow> Some (Inl e)
               | Inr (all_comments, all_metrics) \<Rightarrow>
                   (let (ranked_comments, risk) = aggregate_comments all_comments
                    in Some (Inr \<lparr>pr_diff = diff, comments = ranked_comments, summary = [],
                                  risk_score = risk, agent_metrics = all_metrics,
                                  total_duration_ms = total_ms rt\<rparr>))))"

section \<open>Notions and examples used in the statements\<close>

text \<open>The tasks of a review: the given agents, or the four registered ones, on every file.\<close>

definition review_tasks ::
  "runtime \<Rightarrow> PRDiff \<Rightarrow> LLMProvider \<Rightarrow> ReviewAgent list option \<Rightarrow> (ReviewAgent \<times> FileChange) list" where
  "review_tasks rt diff provider agents =
     build_tasks diff (case agents of None \<Rightarrow> create_all_agents rt provider | Some given \<Rightarrow> given)"

text \<open>
  A run that ends without an exception outside \<^verbatim>\<open>Exception\<close>, and a run that yields a
  telemetry record (it returned or timed out).
\<close>

definition ends_contained :: "(exn + (ReviewComment list \<times> AgentMetrics)) option \<Rightarrow> bool" where
  "ends_contained run =
     (case run of None \<Rightarrow> False | Some (Inl e) \<Rightarrow> isinstance e [Exception] | Some (Inr r) \<Rightarrow> True)"

definition yields_record :: "(exn + (ReviewComment list \<times> AgentMetrics)) option \<Rightarrow> bool" where
  "yields_record run = (case run of Some (Inr r) \<Rightarrow> True | _ \<Rightarrow> False)"

text \<open>
  A task is well behaved when its agent inherits \<^verbatim>\<open>ReviewAgent.analyze\<close>, whatever
  its prompt builder, upstream call or parser raises derives from \<^verbatim>\<open>Exception\<close>, and
  its upstream call ends: it returns, raises, or stops when cancelled at the timeout.
\<close>

definition well_behaved :: "ReviewAgent \<Rightarrow> FileChange \<Rightarrow> PRDiff \<Rightarrow> real \<Rightarrow> bool" where
  "well_behaved agent file_change context timeout =
     (analyze_override agent = None \<and>
      (case build_prompt agent file_change context of
         Inl e \<Rightarrow> isinstance e [Exception]
       | Inr prompt \<Rightarrow>
           (case complete (llm agent)
                   [(''system'', get_system_prompt agent), (''user'', prompt)] timeout of
              Pending \<Rightarrow> True
            | Never \<Rightarrow> False
            | Raise e \<Rightarrow> isinstance e [Exception]
            | Done response \<Rightarrow>
                (case parse_response agent (content response) (filename file_change) of
                   Inl e \<Rightarrow> isinstance e [Exception]
                 | Inr found \<Rightarrow> True))))"

text \<open>
  What goes wrong in a task of an agent that inherits \<^verbatim>\<open>ReviewAgent.analyze\<close>, if
  anything: the first of prompt building, upstream call and response parsing that
  raises, or the upstream call that is cancelled at the timeout, or the upstream call
  that never ends.
\<close>

datatype task_failure = Threw exn | TimedOut | Hung

definition task_failure ::
  "ReviewAgent \<Rightarrow> FileChange \<Rightarrow> PRDiff \<Rightarrow> real \<Rightarrow> task_failure option" where
  "task_failure agent file_change context timeout =
     (case build_prompt agent file_change context of
        Inl e \<Rightarrow> Some (Threw e)
      | Inr prompt \<Rightarrow>
          (case complete (llm agent)
                  [(''system'', get_system_prompt agent), (''user'', prompt)] timeout of
             Pending \<Rightarrow> Some TimedOut
           | Never \<Rightarrow> Some Hung
           | Raise e \<Rightarrow> Some (Threw e)
           | Done response \<Rightarrow>
               (case parse_response agent (content response) (filename file_change) of
                  Inl e \<Rightarrow> Some (Threw e)
                | Inr found \<Rightarrow> None)))"

text \<open>
  The sample data of tests/unit/test_pipeline.py and tests/unit/test_agents.py: the
  diff \<^verbatim>\<open>_pr_diff(n_files)\<close>, the provider \<^verbatim>\<open>SlowMockLLM\<close> whose call sleeps for 100
  seconds, and the provider \<^verbatim>\<open>MockLLM(error=e)\<close> whose call raises \<open>e\<close>. The example
  runtime formats every timeout as \<^verbatim>\<open>0.1\<close>, the timeout of the timeout test.
  \<open>BrokenAgent e\<close> is an agent of a subclass whose own \<^verbatim>\<open>analyze\<close> raises \<open>e\<close>.
\<close>

definition test_pr_diff :: "nat \<Rightarrow> PRDiff" where
  "test_pr_diff n_files =
     \<lparr>repo_owner = ''org'', repo_name = ''repo'', pr_number = 1, pr_title = ''Test PR'',
      description = [], base_branch = ''main'', head_branch = [],
      files = map (\<lambda>i. \<lparr>filename = ''file_'' @ str_nat i @ ''.py'', status = MODIFIED,
                          patch = ''@@ -1,3 +1,4 @@'' @ newline @ ''+new_line_'' @ str_nat i @ newline,
                          additions = 1, deletions = 0, language = Some ''python'', hunks = []\<rparr>)
                [0..<n_files],
      raw_url = None\<rparr>"

definition SlowMockLLM :: LLMProvider where
  "SlowMockLLM =
     \<lparr>complete = (\<lambda>messages t.
        if t < 100 then Pending
        else Done \<lparr>content = ''[]'', response_prompt_tokens = 0, response_completion_tokens = 0,
                   model = []\<rparr>)\<rparr>"

definition MockLLM_error :: "exn \<Rightarrow> LLMProvider" where
  "MockLLM_error e = \<lparr>complete = (\<lambda>messages t. Raise e)\<rparr>"

definition test_runtime :: runtime where
  "test_runtime =
     \<lparr>str_float = (\<lambda>t. ''0.1''),
      render_prompt = (\<lambda>agent_name' file_change context. patch file_change),
      base_parse_response = (\<lambda>agent_name' category' text file_name. Inr []),
      task_duration = (\<lambda>i. 0),
      total_ms = 0\<rparr>"

definition BrokenAgent :: "exn \<Rightarrow> ReviewAgent" where
  "BrokenAgent e =
     \<lparr>name = ''broken_agent'', agent_category = ''logic'',
      build_prompt = (\<lambda>file_change context. Inr (patch file_change)),
      parse_response = (\<lambda>text file_name. Inr []),
      llm = SlowMockLLM,
      analyze_override = Some (\<lambda>file_change context t. Raise e)\<rparr>"

text \<open>
  The pair that a well-behaved task gives: the timeout record when the timeout is 0
  or less or the analysis is cancelled at the timeout, and the pair returned by the
  analysis otherwise. \<open>task_records\<close> lists them in the order of the tasks.
\<close>

definition task_record ::
  "(real \<Rightarrow> string) \<Rightarrow> ReviewAgent \<Rightarrow> FileChange \<Rightarrow> PRDiff \<Rightarrow> real \<Rightarrow> int \<Rightarrow>
     ReviewComment list \<times> AgentMetrics" where
  "task_record fmt agent file_change context timeout duration =
     (if timeout \<le> 0 then ([], timeout_metrics fmt agent timeout)
      else case analyze agent file_change context timeout duration of
             Done r \<Rightarrow> r
           | _ \<Rightarrow> ([], timeout_metrics fmt agent timeout))"

definition task_records ::
  "runtime \<Rightarrow> PRDiff \<Rightarrow> real \<Rightarrow> (ReviewAgent \<times> FileChange) list \<Rightarrow>
     (ReviewComment list \<times> AgentMetrics) list" where
  "task_records rt diff timeout tasks =
     map (\<lambda>(i, agent, f). task_record (str_float rt) agent f diff timeout (task_duration rt i))
       (zip [0..<length tasks] tasks)"

section \<open>Aggregation: deduplication\<close>

lemma update_fresh: "k \<notin> fst ` set al \<Longrightarrow> AList.update k v al = al @ [(k, v)]"
  by (induction al) auto

lemma map_of_None_fresh: "map_of al k = None \<Longrightarrow> k \<notin> fst ` set al"
  by (simp add: map_of_eq_None_iff)

lemma set_update_distinct:
  "distinct (map fst al) \<Longrightarrow> map_of al k = Some old \<Longrightarrow>
   set (AList.update k v al) = insert (k, v) (set al - {(k, old)})"
proof (induction al)
  case Nil
  then show ?case by simp
next
  case (Cons p al)
  show ?case
  proof (cases "fst p = k")
    case True
    with Cons.prems have "p = (k, old)" by (cases p) auto
    moreover from Cons.prems True have "(k, old) \<notin> set al" by (force simp: image_iff)
    ultimately show ?thesis by auto
  next
    case False
    with Cons have "set (AList.update k v al) = insert (k, v) (set al - {(k, old)})" by simp
    with False show ?thesis by (cases p) auto
  qed
qed

lemma first_best_bound:
  assumes "first_best cs k w" "e \<in> set cs" "dedup_key e = k"
  shows "confidence e \<le> confidence w"
proof -
  from assms(1) obtain pre post where d: "cs = pre @ w # post"
    and p: "\<forall>e\<in>set pre. dedup_key e = k \<longrightarrow> confidence e < confidence w"
    and q: "\<forall>e\<in>set post. dedup_key e = k \<longrightarrow> confidence e \<le> confidence w"
    unfolding first_best_def by blast
  from assms(2) d have "e \<in> set pre \<or> e = w \<or> e \<in> set post" by auto
  with p q assms(3) show ?thesis by force
qed

lemma first_best_snoc_keep:
  assumes "first_best cs k w" "dedup_key x = k \<longrightarrow> confidence x \<le> confidence w"
  shows "first_best (cs @ [x]) k w"
proof -
  from assms(1) obtain pre post where d: "cs = pre @ w # post" and kw: "dedup_key w = k"
    and p: "\<forall>e\<in>set pre. dedup_key e = k \<longrightarrow> confidence e < confidence w"
    and q: "\<forall>e\<in>set post. dedup_key e = k \<longrightarrow> confidence e \<le> confidence w"
    unfolding first_best_def by blast
  have "cs @ [x] = pre @ w # (post @ [x])" using d by simp
  moreover have "\<forall>e\<in>set (post @ [x]). dedup_key e = k \<longrightarrow> confidence e \<le> confidence w"
    using q assms(2) by auto
  ultimately show ?thesis unfolding first_best_def using kw p by blast
qed

lemma first_best_snoc_new:
  assumes "\<forall>e\<in>set cs. dedup_key e = dedup_key x \<longrightarrow> confidence e < confidence x"
  shows "first_best (cs @ [x]) (dedup_key x) x"
proof -
  have "cs @ [x] = cs @ x # []" by simp
  then show ?thesis unfolding first_best_def using assms by fastforce
qed

text \<open>One iteration of the loop keeps the invariant.\<close>

lemma seen_inv_step:
  assumes inv: "seen_inv cs seen"
  shows "seen_inv (cs @ [x]) (dedup_step x seen)"
proof -
  from inv have dist: "distinct (map fst seen)"
    and best: "\<And>k w. (k, w) \<in> set seen \<Longrightarrow> first_best cs k w"
    and cover: "\<And>c. c \<in> set cs \<Longrightarrow> dedup_key c \<in> fst ` set seen"
    unfolding seen_inv_def by auto
  let ?k = "dedup_key x"
  show ?thesis
  proof (cases "map_of seen ?k")
    case None
    then have fresh: "?k \<notin> fst ` set seen" by (rule map_of_None_fresh)
    then have step: "dedup_step x seen = seen @ [(?k, x)]"
      using None by (simp add: dedup_step_def update_fresh)
    have "distinct (map fst (seen @ [(?k, x)]))" using dist fresh by simp
    moreover have "first_best (cs @ [x]) k w" if "(k, w) \<in> set (seen @ [(?k, x)])" for k w
    proof (cases "(k, w) \<in> set seen")
      case True
      then have "k \<noteq> ?k" using fresh by force
      then show ?thesis using best[OF True] by (intro first_best_snoc_keep) auto
    next
      case False
      with that have "k = ?k" "w = x" by auto
      moreover have "\<forall>e\<in>set cs. dedup_key e = ?k \<longrightarrow> confidence e < confidence x"
        using cover fresh by metis
      ultimately show ?thesis using first_best_snoc_new by simp
    qed
    moreover have "\<forall>c\<in>set (cs @ [x]). dedup_key c \<in> fst ` set (seen @ [(?k, x)])"
      using cover by auto
    ultimately show ?thesis unfolding seen_inv_def step by blast
  next
    case (Some old)
    then have old_in: "(?k, old) \<in> set seen" by (rule map_of_SomeD)
    have old_best: "first_best cs ?k old" using best[OF old_in] .
    have uniq: "w = old" if "(?k, w) \<in> set seen" for w
      using that dist Some by (metis map_of_is_SomeI option.inject)
    show ?thesis
    proof (cases "confidence x > confidence old")
      case True
      then have step: "dedup_step x seen = AList.update ?k x seen"
        using Some by (simp add: dedup_step_def)
      have set_eq: "set (AList.update ?k x seen) = insert (?k, x) (set seen - {(?k, old)})"
        using dist Some by (rule set_update_distinct)
      have "distinct (map fst (AList.update ?k x seen))" using dist by (rule distinct_update)
      moreover have "first_best (cs @ [x]) k w" if "(k, w) \<in> set (AList.update ?k x seen)" for k w
      proof (cases "(k, w) = (?k, x)")
        case True
        have "\<forall>e\<in>set cs. dedup_key e = ?k \<longrightarrow> confidence e < confidence x"
          using first_best_bound[OF old_best] \<open>confidence x > confidence old\<close> by fastforce
        then show ?thesis using True first_best_snoc_new by simp
      next
        case False
        with that set_eq have in_seen: "(k, w) \<in> set seen" and "(k, w) \<noteq> (?k, old)" by auto
        then have "k \<noteq> ?k" using uniq by auto
        then show ?thesis using best[OF in_seen] by (intro first_best_snoc_keep) auto
      qed
      moreover have "\<forall>c\<in>set (cs @ [x]). dedup_key c \<in> fst ` set (AList.update ?k x seen)"
      proof
        fix c assume "c \<in> set (cs @ [x])"
        then have "dedup_key c \<in> fst ` set seen \<or> dedup_key c = ?k" using cover by auto
        then show "dedup_key c \<in> fst ` set (AList.update ?k x seen)"
          unfolding set_eq by force
      qed
      ultimately show ?thesis unfolding seen_inv_def step by blast
    next
      case False
      then have step: "dedup_step x seen = seen" using Some by (simp add: dedup_step_def)
      have "first_best (cs @ [x]) k w" if "(k, w) \<in> set seen" for k w
      proof (intro first_best_snoc_keep best[OF that] impI)
        assume "dedup_key x = k"
        then have "w = old" using that uniq by simp
        then show "confidence x \<le> confidence w" using False by simp
      qed
      moreover have "\<forall>c\<in>set (cs @ [x]). dedup_key c \<in> fst ` set seen"
        using cover old_in by force
      ultimately show ?thesis unfolding seen_inv_def step using dist by blast
    qed
  qed
qed

lemma seen_inv_fold: "seen_inv cs (fold dedup_step cs [])"
proof (induction cs rule: rev_induct)
  case Nil
  show ?case by (simp add: seen_inv_def)
next
  case (snoc x cs)
  then show ?case by (simp add: seen_inv_step)
qed




lemmas key_eval = dedup_key_def str_line_def str_int_def str_nat.simps digit_char_def strip_def
  lower_def lower_char_def is_upper_def is_space_def

lemmas risk_eval = aggregate_comments_def rank_comments_def rank_key_def compute_risk_score_def
  total_weight_def RISK_THRESHOLDS_low_def RISK_THRESHOLDS_medium_def RISK_THRESHOLDS_high_def



text \<open>
  C5. A finding in the file \<^verbatim>\<open>a.py\<close> at line 10 titled \<^verbatim>\<open>20:unused import\<close> and a
  finding in the file \<^verbatim>\<open>a.py:10\<close> at line 20 titled \<^verbatim>\<open>unused import\<close> differ in
  file, in line and in normalized title, but both have the key
  \<^verbatim>\<open>a.py:10:20:unused import\<close>: deduplication merges them and only the second
  survives.
\<close>

theorem dedup_merges_findings_of_different_files:
  "comment_file (test_comment ''a.py'' (Some 10) WARNING ''20:unused import'' (6 / 10)) \<noteq>
     comment_file (test_comment ''a.py:10'' (Some 20) WARNING ''unused import'' (9 / 10)) \<and>
   line (test_comment ''a.py'' (Some 10) WARNING ''20:unused import'' (6 / 10)) \<noteq>
     line (test_comment ''a.py:10'' (Some 20) WARNING ''unused import'' (9 / 10)) \<and>
   strip (lower (title (test_comment ''a.py'' (Some 10) WARNING ''20:unused import'' (6 / 10)))) \<noteq>
     strip (lower (title (test_comment ''a.py:10'' (Some 20) WARNING ''unused import'' (9 / 10)))) \<and>
   dedup_key (test_comment ''a.py'' (Some 10) WARNING ''20:unused import'' (6 / 10)) =
     ''a.py:10:20:unused import'' \<and>
   dedup_key (test_comment ''a.py:10'' (Some 20) WARNING ''unused import'' (9 / 10)) =
     ''a.py:10:20:unused import'' \<and>
   deduplicate_comments
     [test_comment ''a.py'' (Some 10) WARNING ''20:unused import'' (6 / 10),
      test_comment ''a.py:10'' (Some 20) WARNING ''unused import'' (9 / 10)] =
     [test_comment ''a.py:10'' (Some 20) WARNING ''unused import'' (9 / 10)]"
  by (simp add: test_comment_def key_eval deduplicate_comments_def dedup_step_def)

section \<open>Aggregation: risk score and ranking\<close>

lemma total_weight_insort:
  "total_weight (insort_key f x xs) = SEVERITY_WEIGHTS (severity x) + total_weight xs"
  by (induction xs) (auto simp: total_weight_def)

lemma total_weight_rank: "total_weight (rank_comments cs) = total_weight cs"
proof -
  have "total_weight (foldr (insort_key rank_key) cs []) = total_weight cs"
  proof (induction cs)
    case Nil
    show ?case by simp
  next
    case (Cons c cs)
    then show ?case by (simp add: total_weight_insort) (simp add: total_weight_def)
  qed
  then show ?thesis by (simp add: rank_comments_def sort_key_def)
qed

lemma aggregate_risk: "snd (aggregate_comments cs) = compute_risk_score (deduplicate_comments cs)"
  by (simp add: aggregate_comments_def Let_def compute_risk_score_def total_weight_rank)

lemma risk_mono_weight:
  "total_weight xs \<le> total_weight ys \<Longrightarrow>
   risk_level (compute_risk_score xs) \<le> risk_level (compute_risk_score ys)"
  by (simp add: compute_risk_score_def RISK_THRESHOLDS_low_def RISK_THRESHOLDS_medium_def
      RISK_THRESHOLDS_high_def)

lemma weight_nonneg: "0 \<le> SEVERITY_WEIGHTS s"
  by (cases s) simp_all

lemma total_weight_update:
  "map_of al k = Some old \<Longrightarrow>
   total_weight (map snd (AList.update k v al)) =
   total_weight (map snd al) - SEVERITY_WEIGHTS (severity old) + SEVERITY_WEIGHTS (severity v)"
  by (induction al) (auto simp: total_weight_def)

text \<open>
  C3. The risk level returned by the aggregation is determined by the sum of the
  severity weights (critical 10, warning 3, suggestion 1, nitpick 0) over the
  deduplicated findings: at most 5 gives low, at most 15 medium, at most 30 high, and
  more than 30 critical. One finding of each severity has the sum 14 and the level
  medium.
\<close>

theorem risk_score_is_thresholded_weight_sum:
  "snd (aggregate_comments cs) =
     (let s = (\<Sum>c\<leftarrow>deduplicate_comments cs. SEVERITY_WEIGHTS (severity c)) in
      if s \<le> 5 then RISK_LOW else if s \<le> 15 then RISK_MEDIUM
      else if s \<le> 30 then RISK_HIGH else RISK_CRITICAL) \<and>
   SEVERITY_WEIGHTS CRITICAL = 10 \<and> SEVERITY_WEIGHTS WARNING = 3 \<and>
   SEVERITY_WEIGHTS SUGGESTION = 1 \<and> SEVERITY_WEIGHTS NITPICK = 0 \<and>
   total_weight [a\<lparr>severity := CRITICAL\<rparr>, b\<lparr>severity := WARNING\<rparr>,
                 c\<lparr>severity := SUGGESTION\<rparr>, d\<lparr>severity := NITPICK\<rparr>] = 14 \<and>
   compute_risk_score [a\<lparr>severity := CRITICAL\<rparr>, b\<lparr>severity := WARNING\<rparr>,
                       c\<lparr>severity := SUGGESTION\<rparr>, d\<lparr>severity := NITPICK\<rparr>] = RISK_MEDIUM"
  by (simp add: aggregate_risk compute_risk_score_def total_weight_def RISK_THRESHOLDS_low_def
      RISK_THRESHOLDS_medium_def RISK_THRESHOLDS_high_def)

text \<open>
  The scenario of tests/unit/test_aggregator.py: four findings with distinct titles, one
  of each severity, aggregate to the sum 14 and the level medium.
\<close>

theorem risk_score_is_thresholded_weight_sum_witness:
  "(\<Sum>c\<leftarrow>deduplicate_comments
       [test_comment ''test.py'' (Some 10) CRITICAL ''C'' (8 / 10),
        test_comment ''test.py'' (Some 10) WARNING ''W'' (8 / 10),
        test_comment ''test.py'' (Some 10) SUGGESTION ''S'' (8 / 10),
        test_comment ''test.py'' (Some 10) NITPICK ''N'' (8 / 10)]. SEVERITY_WEIGHTS (severity c)) = 14 \<and>
   snd (aggregate_comments
       [test_comment ''test.py'' (Some 10) CRITICAL ''C'' (8 / 10),
        test_comment ''test.py'' (Some 10) WARNING ''W'' (8 / 10),
        test_comment ''test.py'' (Some 10) SUGGESTION ''S'' (8 / 10),
        test_comment ''test.py'' (Some 10) NITPICK ''N'' (8 / 10)]) = RISK_MEDIUM"
proof -
  let ?cs = "[test_comment ''test.py'' (Some 10) CRITICAL ''C'' (8 / 10),
        test_comment ''test.py'' (Some 10) WARNING ''W'' (8 / 10),
        test_comment ''test.py'' (Some 10) SUGGESTION ''S'' (8 / 10),
        test_comment ''test.py'' (Some 10) NITPICK ''N'' (8 / 10)]"
  have sum: "(\<Sum>c\<leftarrow>deduplicate_comments ?cs. SEVERITY_WEIGHTS (severity c)) = 14"
    by (simp add: test_comment_def key_eval deduplicate_comments_def dedup_step_def)
  from risk_score_is_thresholded_weight_sum[of ?cs] sum show ?thesis
    by (simp add: Let_def)
qed

lemma severity_order_inj: "severity_order s = severity_order t \<longleftrightarrow> s = t"
  by (cases s; cases t) simp_all

lemma rank_key_eq:
  "rank_key c = (severity_order s, - q) \<longleftrightarrow> severity c = s \<and> confidence c = q"
  by (auto simp: rank_key_def severity_order_inj)

lemma rank_sorted_keys: "sorted_wrt (\<lambda>a b. rank_key a \<le> rank_key b) (rank_comments cs)"
  using sorted_sort_key[of rank_key cs] by (simp add: rank_comments_def sorted_map)

text \<open>
  C6. The aggregation ranks the deduplicated findings. A ranked list is a rearrangement
  of its input that is non-decreasing in severity rank (critical 0, warning 1,
  suggestion 2, nitpick 3) and, among findings of equal severity, non-increasing in
  confidence; findings equal in severity and in confidence keep their input order.
\<close>

theorem rank_is_stable_sort_by_severity_then_confidence:
  "fst (aggregate_comments l) = rank_comments (deduplicate_comments l) \<and>
   severity_order CRITICAL = 0 \<and> severity_order WARNING = 1 \<and>
   severity_order SUGGESTION = 2 \<and> severity_order NITPICK = 3 \<and>
   sorted_wrt (\<lambda>a b. severity_order (severity a) < severity_order (severity b) \<or>
        (severity a = severity b \<and> confidence b \<le> confidence a)) (rank_comments cs) \<and>
   sorted (map (\<lambda>c. severity_order (severity c)) (rank_comments cs)) \<and>
   (\<forall>s. sorted_wrt (\<lambda>a b. confidence b \<le> confidence a)
          (filter (\<lambda>c. severity c = s) (rank_comments cs))) \<and>
   (\<forall>s q. filter (\<lambda>c. severity c = s \<and> confidence c = q) (rank_comments cs) =
          filter (\<lambda>c. severity c = s \<and> confidence c = q) cs) \<and>
   set (rank_comments cs) = set cs \<and> length (rank_comments cs) = length cs"
proof -
  have lex: "sorted_wrt (\<lambda>a b. severity_order (severity a) < severity_order (severity b) \<or>
        (severity a = severity b \<and> confidence b \<le> confidence a)) (rank_comments cs)"
    by (rule sorted_wrt_mono_rel[OF _ rank_sorted_keys])
       (auto simp: rank_key_def less_eq_prod_def severity_order_inj)
  have sev: "sorted (map (\<lambda>c. severity_order (severity c)) (rank_comments cs))"
    unfolding sorted_map by (rule sorted_wrt_mono_rel[OF _ lex]) auto
  have conf: "sorted_wrt (\<lambda>a b. confidence b \<le> confidence a)
          (filter (\<lambda>c. severity c = s) (rank_comments cs))" for s
    by (rule sorted_wrt_mono_rel[OF _ sorted_wrt_filter[OF lex]]) auto
  have stable: "filter (\<lambda>c. severity c = s \<and> confidence c = q) (rank_comments cs) =
          filter (\<lambda>c. severity c = s \<and> confidence c = q) cs" for s q
    using sort_key_stable[of rank_key "(severity_order s, - q)" cs]
    by (simp add: rank_comments_def rank_key_eq)
  show ?thesis using lex sev conf stable
    by (simp add: aggregate_comments_def Let_def rank_comments_def)
qed

text \<open>
  The ranking scenario of tests/unit/test_aggregator.py: nitpick, critical, suggestion,
  warning rank to critical, warning, suggestion, nitpick.
\<close>

theorem rank_is_stable_sort_by_severity_then_confidence_witness:
  "rank_comments
     [test_comment ''test.py'' (Some 10) NITPICK ''N'' (8 / 10),
      test_comment ''test.py'' (Some 10) CRITICAL ''C'' (8 / 10),
      test_comment ''test.py'' (Some 10) SUGGESTION ''S'' (8 / 10),
      test_comment ''test.py'' (Some 10) WARNING ''W'' (8 / 10)] =
     [test_comment ''test.py'' (Some 10) CRITICAL ''C'' (8 / 10),
      test_comment ''test.py'' (Some 10) WARNING ''W'' (8 / 10),
      test_comment ''test.py'' (Some 10) SUGGESTION ''S'' (8 / 10),
      test_comment ''test.py'' (Some 10) NITPICK ''N'' (8 / 10)] \<and>
   sorted (map (\<lambda>c. severity_order (severity c))
     (rank_comments
       [test_comment ''test.py'' (Some 10) NITPICK ''N'' (8 / 10),
        test_comment ''test.py'' (Some 10) CRITICAL ''C'' (8 / 10),
        test_comment ''test.py'' (Some 10) SUGGESTION ''S'' (8 / 10),
        test_comment ''test.py'' (Some 10) WARNING ''W'' (8 / 10)]))"
  using rank_is_stable_sort_by_severity_then_confidence
    [of "[]" "[test_comment ''test.py'' (Some 10) NITPICK ''N'' (8 / 10),
      test_comment ''test.py'' (Some 10) CRITICAL ''C'' (8 / 10),
      test_comment ''test.py'' (Some 10) SUGGESTION ''S'' (8 / 10),
      test_comment ''test.py'' (Some 10) WARNING ''W'' (8 / 10)]"]
  by (simp add: test_comment_def rank_comments_def rank_key_def)

lemma dedup_snoc: "deduplicate_comments (l @ [f]) = map snd (dedup_step f (fold dedup_step l []))"
  by (simp add: deduplicate_comments_def)

text \<open>
  C8, as stated, fails: a critical finding alone gives the level medium; adding a
  nitpick with the same file, line and title and a higher confidence replaces it in the
  deduplication, and the level drops to low.
\<close>

theorem risk_not_monotonic_counterexample:
  "\<not> risk_level (snd (aggregate_comments
          [test_comment ''test.py'' (Some 10) CRITICAL ''Issue'' (6 / 10)])) \<le>
     risk_level (snd (aggregate_comments
          ([test_comment ''test.py'' (Some 10) CRITICAL ''Issue'' (6 / 10)] @
           [test_comment ''test.py'' (Some 10) NITPICK ''Issue'' (9 / 10)])))"
  by (simp add: test_comment_def key_eval deduplicate_comments_def dedup_step_def risk_eval)

text \<open>
  C8, amended. The risk scoring itself is monotonic: appending a finding to the list
  that is scored never lowers the level. The aggregation (deduplication, then scoring)
  is monotonic in every added finding that does not replace, in the deduplication, a
  surviving finding of the same key, lower confidence and greater severity weight.
\<close>

theorem risk_monotonic_unless_heavier_finding_replaced:
  "risk_level (compute_risk_score l) \<le> risk_level (compute_risk_score (l @ [f])) \<and>
   ((\<forall>d\<in>set (deduplicate_comments l).
        dedup_key d = dedup_key f \<and> confidence d < confidence f \<longrightarrow>
        SEVERITY_WEIGHTS (severity d) \<le> SEVERITY_WEIGHTS (severity f)) \<longrightarrow>
    risk_level (snd (aggregate_comments l)) \<le> risk_level (snd (aggregate_comments (l @ [f]))))"
proof (intro conjI impI)
  have "total_weight l \<le> total_weight (l @ [f])"
    using weight_nonneg[of "severity f"] by (simp add: total_weight_def)
  then show "risk_level (compute_risk_score l) \<le> risk_level (compute_risk_score (l @ [f]))"
    by (rule risk_mono_weight)
next
  assume hyp: "\<forall>d\<in>set (deduplicate_comments l).
        dedup_key d = dedup_key f \<and> confidence d < confidence f \<longrightarrow>
        SEVERITY_WEIGHTS (severity d) \<le> SEVERITY_WEIGHTS (severity f)"
  let ?seen = "fold dedup_step l []"
  let ?k = "dedup_key f"
  have inv: "seen_inv l ?seen" by (rule seen_inv_fold)
  have "total_weight (deduplicate_comments l) \<le> total_weight (deduplicate_comments (l @ [f]))"
  proof (cases "map_of ?seen ?k")
    case None
    then have "dedup_step f ?seen = ?seen @ [(?k, f)]"
      by (simp add: dedup_step_def update_fresh map_of_None_fresh)
    then show ?thesis using weight_nonneg[of "severity f"]
      by (simp add: dedup_snoc) (simp add: deduplicate_comments_def total_weight_def)
  next
    case (Some old)
    show ?thesis
    proof (cases "confidence f > confidence old")
      case True
      have in_seen: "(?k, old) \<in> set ?seen" using Some by (rule map_of_SomeD)
      then have "old \<in> set (deduplicate_comments l)"
        by (force simp: deduplicate_comments_def)
      moreover have "dedup_key old = ?k"
        using inv in_seen unfolding seen_inv_def first_best_def by blast
      ultimately have "SEVERITY_WEIGHTS (severity old) \<le> SEVERITY_WEIGHTS (severity f)"
        using hyp True by blast
      moreover have "dedup_step f ?seen = AList.update ?k f ?seen"
        using Some True by (simp add: dedup_step_def)
      ultimately show ?thesis using total_weight_update[OF Some, of f]
        by (simp add: dedup_snoc) (simp add: deduplicate_comments_def)
    next
      case False
      then have "dedup_step f ?seen = ?seen" using Some by (simp add: dedup_step_def)
      then show ?thesis by (simp add: dedup_snoc) (simp add: deduplicate_comments_def)
    qed
  qed
  then show "risk_level (snd (aggregate_comments l)) \<le> risk_level (snd (aggregate_comments (l @ [f])))"
    unfolding aggregate_risk by (rule risk_mono_weight)
qed

text \<open>
  A warning replaced by a critical finding of the same key and higher confidence: the
  level rises from low to medium.
\<close>

theorem risk_monotonic_unless_heavier_finding_replaced_witness:
  "deduplicate_comments [test_comment ''test.py'' (Some 10) WARNING ''Issue'' (6 / 10)] =
     [test_comment ''test.py'' (Some 10) WARNING ''Issue'' (6 / 10)] \<and>
   dedup_key (test_comment ''test.py'' (Some 10) WARNING ''Issue'' (6 / 10)) =
     dedup_key (test_comment ''test.py'' (Some 10) CRITICAL ''Issue'' (9 / 10)) \<and>
   confidence (test_comment ''test.py'' (Some 10) WARNING ''Issue'' (6 / 10)) <
     confidence (test_comment ''test.py'' (Some 10) CRITICAL ''Issue'' (9 / 10)) \<and>
   SEVERITY_WEIGHTS (severity (test_comment ''test.py'' (Some 10) WARNING ''Issue'' (6 / 10))) \<le>
     SEVERITY_WEIGHTS (severity (test_comment ''test.py'' (Some 10) CRITICAL ''Issue'' (9 / 10))) \<and>
   risk_level (snd (aggregate_comments [test_comment ''test.py'' (Some 10) WARNING ''Issue'' (6 / 10)])) \<le>
     risk_level (snd (aggregate_comments
        ([test_comment ''test.py'' (Some 10) WARNING ''Issue'' (6 / 10)] @
         [test_comment ''test.py'' (Some 10) CRITICAL ''Issue'' (9 / 10)]))) \<and>
   snd (aggregate_comments [test_comment ''test.py'' (Some 10) WARNING ''Issue'' (6 / 10)]) = RISK_LOW \<and>
   snd (aggregate_comments
        ([test_comment ''test.py'' (Some 10) WARNING ''Issue'' (6 / 10)] @
         [test_comment ''test.py'' (Some 10) CRITICAL ''Issue'' (9 / 10)])) = RISK_MEDIUM"
proof -
  let ?w = "test_comment ''test.py'' (Some 10) WARNING ''Issue'' (6 / 10)"
  let ?c = "test_comment ''test.py'' (Some 10) CRITICAL ''Issue'' (9 / 10)"
  have d: "deduplicate_comments [?w] = [?w]"
    by (simp add: deduplicate_comments_def dedup_step_def)
  have hyp: "\<forall>d\<in>set (deduplicate_comments [?w]).
        dedup_key d = dedup_key ?c \<and> confidence d < confidence ?c \<longrightarrow>
        SEVERITY_WEIGHTS (severity d) \<le> SEVERITY_WEIGHTS (severity ?c)"
    unfolding d by (simp add: test_comment_def)
  from risk_monotonic_unless_heavier_finding_replaced[of "[?w]" ?c] hyp
  have mono: "risk_level (snd (aggregate_comments [?w])) \<le>
     risk_level (snd (aggregate_comments ([?w] @ [?c])))" by blast
  have low: "snd (aggregate_comments [?w]) = RISK_LOW"
    by (simp add: test_comment_def key_eval deduplicate_comments_def dedup_step_def risk_eval)
  have med: "snd (aggregate_comments ([?w] @ [?c])) = RISK_MEDIUM"
    by (simp add: test_comment_def key_eval deduplicate_comments_def dedup_step_def risk_eval)
  have facts: "dedup_key ?w = dedup_key ?c \<and> confidence ?w < confidence ?c \<and>
      SEVERITY_WEIGHTS (severity ?w) \<le> SEVERITY_WEIGHTS (severity ?c)"
    by (simp add: test_comment_def dedup_key_def)
  show ?thesis using d facts mono low med by blast
qed

section \<open>Retry with exponential backoff\<close>

lemma retried_step:
  "a < k \<Longrightarrow> retried b d a k = [Invoke, Sleep (min (b * 2 ^ a) d)] @ retried b d (Suc a) k"
  by (simp add: retried_def upt_conv_Cons)

lemma power_two_below_limit: "a < 1024 \<Longrightarrow> \<bar>2 ^ a :: int\<bar> < FLOAT_INT_LIMIT"
proof -
  assume "a < 1024"
  then have "(2::int) ^ a \<le> 2 ^ 1023" by (intro power_increasing) auto
  moreover have "(2::int) ^ 1023 < 2 ^ 1024 - 2 ^ 970" by simp
  ultimately show ?thesis by (simp add: FLOAT_INT_LIMIT_def)
qed

lemma backoff_delay_in_range:
  "a < 1024 \<Longrightarrow> backoff_delay b d a = Inr (min (b * 2 ^ a) d)"
  using power_two_below_limit[of a] by (simp add: backoff_delay_def int_to_float_def)

lemma backoff_delay_overflow:
  "1024 \<le> a \<Longrightarrow> backoff_delay b d a = Inl int_too_large"
proof -
  assume "1024 \<le> a"
  then have "(2::int) ^ 1024 \<le> 2 ^ a" by (intro power_increasing) auto
  then have "FLOAT_INT_LIMIT \<le> \<bar>2 ^ a :: int\<bar>" by (simp add: FLOAT_INT_LIMIT_def)
  then show ?thesis by (simp add: backoff_delay_def int_to_float_def)
qed

text \<open>
  While the invocations fail with retryable errors, retries remain and the delay can be
  computed, the loop moves on to the next attempt, having invoked once and slept once
  per failure.
\<close>

lemma retry_skip:
  assumes "a \<le> k" "k \<le> n" "int k \<le> m" "k \<le> 1024"
    and "\<forall>i. a \<le> i \<and> i < k \<longrightarrow> (\<exists>e. func i = Inl e \<and> isinstance e R)"
  shows "\<exists>le'. retry_attempts func (Named fn) m b d R [a..<n] le ev =
          retry_attempts func (Named fn) m b d R [k..<n] le' (ev @ retried b d a k)"
  using assms
proof (induction "k - a" arbitrary: a le ev)
  case 0
  then have "a = k" by simp
  then show ?case by (auto simp: retried_def)
next
  case (Suc j)
  then have lt: "a < k" and an: "a < n" by auto
  from Suc.prems lt obtain e where e: "func a = Inl e" "isinstance e R" by blast
  have more: "\<not> int a \<ge> m" using lt Suc.prems(3) by linarith
  have delay: "backoff_delay b d a = Inr (min (b * 2 ^ a) d)"
    using lt Suc.prems(4) by (intro backoff_delay_in_range) simp
  have "j = k - Suc a" using Suc.hyps(2) by simp
  from Suc.hyps(1)[OF this, of "Some e" "ev @ [Invoke, Sleep (min (b * 2 ^ a) d)]"] Suc.prems lt
  obtain le' where
    "retry_attempts func (Named fn) m b d R [Suc a..<n] (Some e)
       (ev @ [Invoke, Sleep (min (b * 2 ^ a) d)]) =
     retry_attempts func (Named fn) m b d R [k..<n] le'
       ((ev @ [Invoke, Sleep (min (b * 2 ^ a) d)]) @ retried b d (Suc a) k)"
    by auto
  then show ?case using e more an lt delay by (auto simp: upt_conv_Cons retried_step)
qed

lemma invocations_retried: "a \<le> k \<Longrightarrow> invocations (retried b d a k) = k - a"
proof (induction "k - a" arbitrary: a)
  case 0
  then show ?case by (simp add: retried_def invocations_def)
next
  case (Suc j)
  then have "a < k" "j = k - Suc a" by auto
  then show ?case using Suc.hyps(1)[of "Suc a"] by (simp add: retried_step invocations_def)
qed

lemma invocations_run: "invocations (retried b d 0 k @ [Invoke]) = k + 1"
  using invocations_retried[of 0 k b d] by (simp add: invocations_def)

lemma retry_run:
  assumes "0 \<le> m" "int k \<le> m" "k \<le> 1024"
    and "\<forall>i<k. \<exists>e. func i = Inl e \<and> isinstance e R"
  shows "\<exists>le'. retry_with_backoff func (Named fn) m b d R =
     retry_attempts func (Named fn) m b d R [k..<nat (m + 1)] le' (retried b d 0 k)"
proof -
  have "k \<le> nat (m + 1)" using assms by linarith
  from retry_skip[OF _ this assms(2,3), of 0 func R fn b d None "[]"] assms(4)
  show ?thesis by (simp add: retry_with_backoff_def)
qed

text \<open>
  What the executor does for a named operation and at most 1024 retries, where every
  delay can be computed: success after \<open>k\<close> retryable failures, exhaustion, a failure
  that is not retryable, and the single attempt of \<open>m = 0\<close>.
\<close>

lemma retry_success:
  assumes m: "0 \<le> m" and k: "int k \<le> m" "k \<le> 1024"
    and f: "\<forall>i<k. \<exists>e. func i = Inl e \<and> isinstance e R" and v: "func k = Inr v"
  shows "retry_with_backoff func (Named fn) m b d R = (Inr v, retried b d 0 k @ [Invoke])"
proof -
  have kn: "k < nat (m + 1)" using k by linarith
  from retry_run[OF m k f, of fn b d] obtain le' where
    "retry_with_backoff func (Named fn) m b d R =
     retry_attempts func (Named fn) m b d R [k..<nat (m + 1)] le' (retried b d 0 k)"
    by auto
  then show ?thesis using kn v by (simp add: upt_conv_Cons)
qed

lemma retry_exhausted:
  assumes m: "0 \<le> m" "m \<le> 1024" and f: "\<forall>i. \<exists>e. func i = Inl e \<and> isinstance e R"
  shows "retry_with_backoff func (Named fn) m b d R =
           (func (nat m), retried b d 0 (nat m) @ [Invoke])"
proof -
  have kn: "nat m < nat (m + 1)" using m by linarith
  have k: "int (nat m) \<le> m" "nat m \<le> 1024" using m by auto
  from f obtain e where e: "func (nat m) = Inl e" "isinstance e R" by blast
  from retry_run[OF m(1) k, of func R fn b d] f obtain le' where
    "retry_with_backoff func (Named fn) m b d R =
     retry_attempts func (Named fn) m b d R [nat m..<nat (m + 1)] le' (retried b d 0 (nat m))"
    by auto
  then show ?thesis using kn e m by (simp add: upt_conv_Cons)
qed

lemma retry_not_retryable:
  assumes m: "0 \<le> m" and k: "int k \<le> m" "k \<le> 1024"
    and f: "\<forall>i<k. \<exists>e. func i = Inl e \<and> isinstance e R"
    and x: "func k = Inl x" "\<not> isinstance x R"
  shows "retry_with_backoff func fname m b d R =
           (if k = 0 then (Inl x, [Invoke])
            else case fname of
              Named fn \<Rightarrow> (Inl x, retried b d 0 k @ [Invoke])
            | Unnamed ty \<Rightarrow> (Inl (no_name_error ty), [Invoke]))"
proof (cases "k = 0")
  case True
  have "0 < nat (m + 1)" using m by linarith
  then show ?thesis using True x by (simp add: retry_with_backoff_def upt_conv_Cons)
next
  case False
  show ?thesis
  proof (cases fname)
    case (Named fn)
    have kn: "k < nat (m + 1)" using k by linarith
    from retry_run[OF m k f, of fn b d] obtain le' where
      "retry_with_backoff func (Named fn) m b d R =
       retry_attempts func (Named fn) m b d R [k..<nat (m + 1)] le' (retried b d 0 k)"
      by auto
    then show ?thesis using kn x False Named by (simp add: upt_conv_Cons)
  next
    case (Unnamed ty)
    from f False obtain e where e: "func 0 = Inl e" "isinstance e R" by auto
    have n: "0 < nat (m + 1)" using m by linarith
    have more: "\<not> m \<le> 0" using k False by linarith
    have delay: "backoff_delay b d 0 = Inr (min b d)"
      using backoff_delay_in_range[of 0 b d] by simp
    show ?thesis using e n more delay False Unnamed
      by (simp add: retry_with_backoff_def upt_conv_Cons)
  qed
qed

lemma retry_zero: "retry_with_backoff func (Named fn) 0 b d R = (func 0, [Invoke])"
  by (auto simp: retry_with_backoff_def split: sum.splits)

text \<open>
  C7. The claim is right and the code misses it. An operation named \<^verbatim>\<open>func\<close> that
  always fails with the retryable \<^verbatim>\<open>LLMRateLimitError\<close>, run with 1100 retries and
  the delays 0.0, is invoked 1025 times and not the 1101 times of the claim, and the
  executor does not raise the last failure: in the handler of attempt 1024, the
  product of the float \<^verbatim>\<open>base_delay\<close> and the integer \<^verbatim>\<open>2 ** 1024\<close> raises
  \<^verbatim>\<open>OverflowError\<close>.
\<close>

theorem retry_overflows_after_1024_retries:
  "retry_with_backoff (\<lambda>n. Inl (Exn LLMRateLimitError ''always fails'') :: exn + string)
      (Named ''func'') 1100 0 0 [LLMRateLimitError] =
     (Inl (Exn OverflowError ''int too large to convert to float''),
      retried 0 0 0 1024 @ [Invoke]) \<and>
   invocations (snd (retry_with_backoff
      (\<lambda>n. Inl (Exn LLMRateLimitError ''always fails'') :: exn + string)
      (Named ''func'') 1100 0 0 [LLMRateLimitError])) = 1025"
proof -
  let ?f = "\<lambda>n::nat. Inl (Exn LLMRateLimitError ''always fails'') :: exn + string"
  let ?R = "[LLMRateLimitError]"
  have retryable: "isinstance (Exn LLMRateLimitError ''always fails'') ?R"
    by (simp add: isinstance_def)
  have fails: "\<forall>i<1024. \<exists>e. ?f i = Inl e \<and> isinstance e ?R"
    using retryable by simp
  have m: "(0::int) \<le> 1100" and k: "int 1024 \<le> 1100" "(1024::nat) \<le> 1024" by simp_all
  from retry_run[OF m k fails, of "''func''" 0 0] obtain le' where run:
    "retry_with_backoff ?f (Named ''func'') 1100 0 0 ?R =
     retry_attempts ?f (Named ''func'') 1100 0 0 ?R [1024..<nat (1100 + 1)] le' (retried 0 0 0 1024)"
    by auto
  have rest: "[1024..<nat (1100 + 1)] = 1024 # [Suc 1024..<nat (1100 + 1)]"
    by (rule upt_conv_Cons) simp
  have overflow: "backoff_delay 0 0 1024 = Inl int_too_large"
    by (rule backoff_delay_overflow) simp
  have res: "retry_with_backoff ?f (Named ''func'') 1100 0 0 ?R =
      (Inl (Exn OverflowError ''int too large to convert to float''),
       retried 0 0 0 1024 @ [Invoke])"
    unfolding run rest using retryable overflow by (simp add: int_too_large_def)
  show ?thesis unfolding res using invocations_run[of 0 0 1024] by simp
qed

section \<open>Token-bucket rate limiter\<close>

lemma limit_positive: "0 < FLOAT_INT_LIMIT"
  by (simp add: FLOAT_INT_LIMIT_def)

lemma refill_in_range: "rates_in_range s \<Longrightarrow> refill now s = Inr (refilled now s)"
  by (simp add: refill_def refilled_def rates_in_range_def int_to_float_def Let_def)

lemma refilled_rates [simp]:
  "tpm (refilled now s) = tpm s" "rpm (refilled now s) = rpm s"
  "rates_in_range (refilled now s) = rates_in_range s"
  by (simp_all add: refilled_def rates_in_range_def)

lemma refilled_cap: "token_tokens (refilled now s) \<le> real_of_int (tpm s)"
  by (simp add: refilled_def)

lemma refill_cap: "refill now s = Inr s1 \<Longrightarrow> token_tokens s1 \<le> real_of_int (tpm s) \<and> tpm s1 = tpm s"
  by (auto simp: refill_def Let_def split: sum.splits)

lemma poll_not_granted: "tpm s < est \<Longrightarrow> acquire_poll now est s \<noteq> Granted s'"
proof
  assume lt: "tpm s < est" and g: "acquire_poll now est s = Granted s'"
  from g obtain s1 where r: "refill now s = Inr s1"
    and enough: "token_tokens s1 \<ge> real_of_int est"
    by (auto simp: acquire_poll_def Let_def split: sum.splits if_splits prod.splits)
  from refill_cap[OF r] enough lt show False by linarith
qed

lemma poll_backoff_state:
  "rates_in_range s \<Longrightarrow> acquire_poll now est s = Backoff w s' \<Longrightarrow> s' = refilled now s"
  by (auto simp: acquire_poll_def refill_in_range Let_def split: sum.splits if_splits)

lemma wait_time_in_range:
  assumes "rates_in_range s" "tpm s \<noteq> 0" "\<bar>est\<bar> < FLOAT_INT_LIMIT"
  shows "wait_time s est = Inr (max (1 / 10) (min 5 (real_of_int est * 60 / real_of_int (tpm s))))"
proof -
  have "\<bar>tpm s\<bar> < 60 * FLOAT_INT_LIMIT"
    using assms(1) limit_positive by (simp add: rates_in_range_def)
  then show ?thesis using assms(2,3) by (simp add: wait_time_def int_to_float_def)
qed

text \<open>
  C9, as stated, fails. A fresh limiter with one request per minute and 60000 tokens
  per minute grants a request of 1000 tokens. A second request of 1000 tokens at the
  same instant finds no request slot left, while 59000 tokens are in the bucket: no
  token is missing, and the caller sleeps for one second, which no multiple of the
  token deficit, kept between 0.1 and 5, equals.
\<close>

theorem backoff_not_proportional_to_deficit_counterexample:
  "TokenBucketRateLimiter 1 60000 4 0 =
     Inr \<lparr>rpm = 1, tpm = 60000, request_tokens = 1, token_tokens = 60000,
          last_refill = 0, semaphore = 4\<rparr> \<and>
   acquire_poll 0 1000 \<lparr>rpm = 1, tpm = 60000, request_tokens = 1, token_tokens = 60000,
          last_refill = 0, semaphore = 4\<rparr> =
     Granted \<lparr>rpm = 1, tpm = 60000, request_tokens = 0, token_tokens = 59000,
              last_refill = 0, semaphore = 4\<rparr> \<and>
   acquire_poll 0 1000 \<lparr>rpm = 1, tpm = 60000, request_tokens = 0, token_tokens = 59000,
              last_refill = 0, semaphore = 4\<rparr> =
     Backoff 1 \<lparr>rpm = 1, tpm = 60000, request_tokens = 0, token_tokens = 59000,
              last_refill = 0, semaphore = 4\<rparr> \<and>
   token_deficit \<lparr>rpm = 1, tpm = 60000, request_tokens = 0, token_tokens = 59000,
              last_refill = 0, semaphore = 4\<rparr> 1000 = 0 \<and>
   \<not> (\<exists>c. deficit_backoff c
          (token_deficit \<lparr>rpm = 1, tpm = 60000, request_tokens = 0, token_tokens = 59000,
              last_refill = 0, semaphore = 4\<rparr> 1000) = 1)"
proof -
  have small: "\<bar>1::int\<bar> < FLOAT_INT_LIMIT" "\<bar>60000::int\<bar> < FLOAT_INT_LIMIT"
    "\<bar>1000::int\<bar> < FLOAT_INT_LIMIT" "\<bar>60000::int\<bar> < 60 * FLOAT_INT_LIMIT"
    by (simp_all add: FLOAT_INT_LIMIT_def)
  show ?thesis using small
    by (simp add: acquire_poll_def refill_def wait_time_def TokenBucketRateLimiter_def
        int_to_float_def token_deficit_def deficit_backoff_def)
qed

text \<open>
  C9, amended. Whenever the request or token budget is insufficient and the wait time
  can be computed (\<^verbatim>\<open>tpm\<close> is not 0, and the rates and \<^verbatim>\<open>estimated_tokens\<close> are within
  the range of a float), the sleep interval before the next check is the number of
  tokens requested divided by the refill rate in tokens per second,
  \<open>estimated_tokens * 60 / tpm\<close>, kept between 0.1 and 5 seconds; it does not depend on
  the contents of the buckets.
\<close>

theorem backoff_proportional_to_requested_tokens:
  assumes "rates_in_range s" and "tpm s \<noteq> 0" and "\<bar>estimated_tokens\<bar> < FLOAT_INT_LIMIT"
    and "\<not> (1 \<le> request_tokens (refilled now s) \<and>
            real_of_int estimated_tokens \<le> token_tokens (refilled now s))"
  shows "refill now s = Inr (refilled now s) \<and>
         acquire_poll now estimated_tokens s =
           Backoff (max (1 / 10) (min 5 (real_of_int estimated_tokens * 60 / real_of_int (tpm s))))
             (refilled now s) \<and>
         1 / 10 \<le> max (1 / 10) (min 5 (real_of_int estimated_tokens * 60 / real_of_int (tpm s))) \<and>
         max (1 / 10) (min 5 (real_of_int estimated_tokens * 60 / real_of_int (tpm s))) \<le> 5"
proof -
  have r: "refill now s = Inr (refilled now s)" using assms(1) by (rule refill_in_range)
  have w: "wait_time (refilled now s) estimated_tokens =
      Inr (max (1 / 10) (min 5 (real_of_int estimated_tokens * 60 / real_of_int (tpm s))))"
    using wait_time_in_range[of "refilled now s" estimated_tokens] assms(1,2,3) by simp
  have "acquire_poll now estimated_tokens s =
           Backoff (max (1 / 10) (min 5 (real_of_int estimated_tokens * 60 / real_of_int (tpm s))))
             (refilled now s)"
    using assms(4) by (auto simp: acquire_poll_def r w)
  then show ?thesis using r by simp
qed

theorem backoff_proportional_to_requested_tokens_witness:
  "rates_in_range \<lparr>rpm = 60, tpm = 150000, request_tokens = 60, token_tokens = 0,
        last_refill = 0, semaphore = 4\<rparr> \<and>
   tpm \<lparr>rpm = 60, tpm = 150000, request_tokens = 60, token_tokens = 0,
        last_refill = 0, semaphore = 4\<rparr> \<noteq> 0 \<and>
   \<bar>5000 :: int\<bar> < FLOAT_INT_LIMIT \<and>
   \<not> (1 \<le> request_tokens (refilled 0 \<lparr>rpm = 60, tpm = 150000, request_tokens = 60,
               token_tokens = 0, last_refill = 0, semaphore = 4\<rparr>) \<and>
      real_of_int 5000 \<le> token_tokens (refilled 0 \<lparr>rpm = 60, tpm = 150000, request_tokens = 60,
               token_tokens = 0, last_refill = 0, semaphore = 4\<rparr>)) \<and>
   acquire_poll 0 5000 \<lparr>rpm = 60, tpm = 150000, request_tokens = 60, token_tokens = 0,
        last_refill = 0, semaphore = 4\<rparr> =
     Backoff 2 \<lparr>rpm = 60, tpm = 150000, request_tokens = 60, token_tokens = 0,
        last_refill = 0, semaphore = 4\<rparr>"
proof -
  let ?s = "\<lparr>rpm = 60, tpm = 150000, request_tokens = 60, token_tokens = 0,
        last_refill = 0, semaphore = 4\<rparr>"
  have r: "refilled 0 ?s = ?s" by (simp add: refilled_def)
  have h0: "rates_in_range ?s" by (simp add: rates_in_range_def FLOAT_INT_LIMIT_def)
  have h1: "tpm ?s \<noteq> 0" by simp
  have h2: "\<bar>5000 :: int\<bar> < FLOAT_INT_LIMIT" by (simp add: FLOAT_INT_LIMIT_def)
  have h3: "\<not> (1 \<le> request_tokens (refilled 0 ?s) \<and> real_of_int 5000 \<le> token_tokens (refilled 0 ?s))"
    unfolding r by simp
  from backoff_proportional_to_requested_tokens[OF h0 h1 h2 h3]
  have "acquire_poll 0 5000 ?s = Backoff 2 ?s" unfolding r by simp
  then show ?thesis using h0 h1 h2 h3 by blast
qed

text \<open>
  A run of the polling loop that ends has not asked for more than \<^verbatim>\<open>tpm\<close>, unless it
  is left by an exception of the wait time: \<^verbatim>\<open>tpm\<close> is 0, or a rate or the number of
  tokens is beyond the range of a float.
\<close>

lemma loop_ends_only_within_capacity:
  assumes r: "acquire_loop clock est n s = Some r"
  shows "\<not> (tpm s < est \<and> tpm s \<noteq> 0 \<and> rates_in_range s \<and> \<bar>est\<bar> < FLOAT_INT_LIMIT)"
proof (rule acquire_loop.raw_induct[where P = "\<lambda>clock est n s r.
    \<not> (tpm s < est \<and> tpm s \<noteq> 0 \<and> rates_in_range s \<and> \<bar>est\<bar> < FLOAT_INT_LIMIT)", OF _ r])
  fix f :: "(nat \<Rightarrow> real) \<Rightarrow> int \<Rightarrow> nat \<Rightarrow> limiter \<Rightarrow> (exn + limiter) option"
    and clock est n s r
  assume IH: "\<And>clock est n s r. f clock est n s = Some r \<Longrightarrow>
      \<not> (tpm s < est \<and> tpm s \<noteq> 0 \<and> rates_in_range s \<and> \<bar>est\<bar> < FLOAT_INT_LIMIT)"
    and step: "(case acquire_poll (clock n) est s of
        Granted s' \<Rightarrow> Some (Inr s')
      | Backoff w s' \<Rightarrow> f clock est (Suc n) s'
      | Failed e s' \<Rightarrow> Some (Inl e)) = Some r"
  show "\<not> (tpm s < est \<and> tpm s \<noteq> 0 \<and> rates_in_range s \<and> \<bar>est\<bar> < FLOAT_INT_LIMIT)"
  proof
    assume h: "tpm s < est \<and> tpm s \<noteq> 0 \<and> rates_in_range s \<and> \<bar>est\<bar> < FLOAT_INT_LIMIT"
    then have lt: "tpm s < est" and nz: "tpm s \<noteq> 0" and rng: "rates_in_range s"
      and small: "\<bar>est\<bar> < FLOAT_INT_LIMIT" by auto
    have cap: "token_tokens (refilled (clock n) s) < real_of_int est"
      using refilled_cap[of "clock n" s] lt by linarith
    have w: "wait_time (refilled (clock n) s) est =
        Inr (max (1 / 10) (min 5 (real_of_int est * 60 / real_of_int (tpm s))))"
      using wait_time_in_range[of "refilled (clock n) s" est] rng nz small by simp
    have poll: "acquire_poll (clock n) est s =
        Backoff (max (1 / 10) (min 5 (real_of_int est * 60 / real_of_int (tpm s))))
          (refilled (clock n) s)"
      using cap by (simp add: acquire_poll_def refill_in_range[OF rng] w)
    then have "f clock est (Suc n) (refilled (clock n) s) = Some r" using step by simp
    from IH[OF this] h show False by simp
  qed
qed

text \<open>
  For a limiter with usable rates and a request of ordinary size beyond \<^verbatim>\<open>tpm\<close>, the
  loop never exits and \<^verbatim>\<open>acquire\<close> does not return.
\<close>

lemma acquire_loop_diverges_beyond_capacity:
  assumes "tpm s < est" "tpm s \<noteq> 0" "rates_in_range s" "\<bar>est\<bar> < FLOAT_INT_LIMIT"
  shows "acquire_loop clock est n s = None" and "acquire clock est s = None"
proof -
  show loop: "acquire_loop clock est n s = None" for n
    using loop_ends_only_within_capacity[of clock est n s] assms
    by (cases "acquire_loop clock est n s") auto
  show "acquire clock est s = None" using loop[of 0] by (simp add: acquire_def)
qed

text \<open>Whatever the state and the clock, a request beyond \<^verbatim>\<open>tpm\<close> is never granted.\<close>

lemma acquire_never_grants_beyond_capacity:
  assumes "tpm s < est"
  shows "acquire_loop clock est n s \<noteq> Some (Inr s')"
proof
  assume "acquire_loop clock est n s = Some (Inr s')"
  then have "\<not> tpm s < est"
  proof (rule acquire_loop.raw_induct[where P = "\<lambda>clock est n s r. \<forall>s'. r = Inr s' \<longrightarrow> \<not> tpm s < est",
        rule_format, rotated 1])
    fix f :: "(nat \<Rightarrow> real) \<Rightarrow> int \<Rightarrow> nat \<Rightarrow> limiter \<Rightarrow> (exn + limiter) option"
      and clock est n s r s'
    assume IH: "\<And>clock est n s r s'. f clock est n s = Some r \<Longrightarrow> r = Inr s' \<Longrightarrow> \<not> tpm s < est"
      and step: "(case acquire_poll (clock n) est s of
          Granted s' \<Rightarrow> Some (Inr s')
        | Backoff w s' \<Rightarrow> f clock est (Suc n) s'
        | Failed e s' \<Rightarrow> Some (Inl e)) = Some r"
      and r: "r = Inr s'"
    show "\<not> tpm s < est"
    proof
      assume lt: "tpm s < est"
      show False
      proof (cases "acquire_poll (clock n) est s")
        case (Granted s'')
        then show False using lt poll_not_granted by blast
      next
        case (Backoff w s'')
        then have next_run: "f clock est (Suc n) s'' = Some r" using step by simp
        from Backoff have "tpm s'' = tpm s"
          by (auto simp: acquire_poll_def Let_def split: sum.splits if_splits prod.splits
              dest: refill_cap)
        then show False using IH[OF next_run r] lt by simp
      next
        case (Failed e s'')
        then show False using step r by simp
      qed
    qed
  qed simp
  then show False using assms by simp
qed

text \<open>
  C10. The claim is right and the code misses it. For a limiter with \<^verbatim>\<open>tpm = 0\<close>, a
  request of one token exceeds the capacity, and the loop does not run forever: it is
  left in its first pass by the \<^verbatim>\<open>ZeroDivisionError\<close> of the wait time, which
  \<^verbatim>\<open>acquire\<close> raises to its caller.
\<close>

theorem acquire_raises_when_tpm_is_zero:
  "TokenBucketRateLimiter 60 0 4 0 =
     Inr \<lparr>rpm = 60, tpm = 0, request_tokens = 60, token_tokens = 0,
          last_refill = 0, semaphore = 4\<rparr> \<and>
   tpm \<lparr>rpm = 60, tpm = 0, request_tokens = 60, token_tokens = 0,
          last_refill = 0, semaphore = 4\<rparr> < 1 \<and>
   acquire_loop (\<lambda>n. real n) 1 0 \<lparr>rpm = 60, tpm = 0, request_tokens = 60, token_tokens = 0,
          last_refill = 0, semaphore = 4\<rparr> =
     Some (Inl (Exn ZeroDivisionError ''float division by zero'')) \<and>
   acquire (\<lambda>n. real n) 1 \<lparr>rpm = 60, tpm = 0, request_tokens = 60, token_tokens = 0,
          last_refill = 0, semaphore = 4\<rparr> =
     Some (Inl (Exn ZeroDivisionError ''float division by zero''))"
proof -
  let ?s = "\<lparr>rpm = 60, tpm = 0, request_tokens = 60, token_tokens = 0,
          last_refill = 0, semaphore = 4\<rparr>"
  have small: "\<bar>60::int\<bar> < FLOAT_INT_LIMIT" "\<bar>0::int\<bar> < FLOAT_INT_LIMIT"
    "\<bar>1::int\<bar> < FLOAT_INT_LIMIT" "\<bar>0::int\<bar> < 60 * FLOAT_INT_LIMIT"
    by (simp_all add: FLOAT_INT_LIMIT_def)
  have init: "TokenBucketRateLimiter 60 0 4 0 = Inr ?s"
    using small by (simp add: TokenBucketRateLimiter_def int_to_float_def)
  have poll: "acquire_poll 0 1 ?s =
      Failed (Exn ZeroDivisionError ''float division by zero'') ?s"
    using small by (simp add: acquire_poll_def refill_def wait_time_def int_to_float_def)
  have loop: "acquire_loop (\<lambda>n. real n) 1 0 ?s =
      Some (Inl (Exn ZeroDivisionError ''float division by zero''))"
    by (subst acquire_loop.simps) (simp add: poll)
  show ?thesis using init loop by (simp add: acquire_def)
qed

section \<open>Review pipeline\<close>

lemma length_build_tasks: "length (build_tasks diff agents) = length (files diff) * length agents"
  by (simp add: build_tasks_def length_concat comp_def sum_list_triv)

lemma length_review_tasks:
  "length (review_tasks rt diff provider agents) =
     length (files diff) *
     length (case agents of None \<Rightarrow> create_all_agents rt provider | Some given \<Rightarrow> given)"
  by (simp add: review_tasks_def length_build_tasks)

lemma length_task_runs: "length (task_runs rt diff t tasks) = length tasks"
  by (simp add: task_runs_def)

lemma length_task_records: "length (task_records rt diff t tasks) = length tasks"
  by (simp add: task_records_def)

text \<open>
  The analysis of the base class catches every exception that derives from
  \<^verbatim>\<open>Exception\<close>, so a well-behaved task returns a pair: the one of the analysis, or the
  timeout record.
\<close>

lemma run_well_behaved:
  assumes "t \<le> 0 \<or> well_behaved agent f ctx t"
  shows "run_agent_on_file sf agent f ctx t dur = Some (Inr (task_record sf agent f ctx t dur))"
proof (cases "t \<le> 0")
  case True
  then show ?thesis by (simp add: run_agent_on_file_def task_record_def)
next
  case False
  with assms have wb: "well_behaved agent f ctx t" by simp
  then have inherit: "call_analyze agent f ctx t dur = analyze agent f ctx t dur"
    by (simp add: well_behaved_def call_analyze_def)
  from wb have "(\<exists>r. analyze agent f ctx t dur = Done r) \<or> analyze agent f ctx t dur = Pending"
    by (auto simp: well_behaved_def analyze_def contain_def split: sum.splits awaited.splits)
  then show ?thesis using False
    by (auto simp: run_agent_on_file_def task_record_def inherit)
qed

lemma task_runs_well_behaved:
  assumes "\<forall>(agent, f)\<in>set tasks. t \<le> 0 \<or> well_behaved agent f diff t"
  shows "task_runs rt diff t tasks = map (\<lambda>r. Some (Inr r)) (task_records rt diff t tasks)"
proof -
  have "run_agent_on_file (str_float rt) agent f diff t (task_duration rt i) =
        Some (Inr (task_record (str_float rt) agent f diff t (task_duration rt i)))"
    if "(i, agent, f) \<in> set (zip [0..<length tasks] tasks)" for i agent f
  proof -
    from that have "(agent, f) \<in> set tasks" by (rule set_zip_rightD)
    with assms have "t \<le> 0 \<or> well_behaved agent f diff t" by auto
    then show ?thesis by (rule run_well_behaved)
  qed
  then show ?thesis by (auto simp: task_runs_def task_records_def)
qed

lemma those_Some: "those (map (\<lambda>r. Some (f r)) xs) = Some (map f xs)"
  by (induction xs) simp_all

lemma collect_Inr:
  "collect (map Inr rs) (cs, ms) = Inr (cs @ concat (map fst rs), ms @ map snd rs)"
  by (induction rs arbitrary: cs ms) auto

lemma run_review_well_behaved:
  assumes "0 < mc"
    and "\<forall>(agent, f)\<in>set (review_tasks rt diff provider agents). t \<le> 0 \<or> well_behaved agent f diff t"
  shows "run_review rt diff provider agents mc t =
     Some (Inr \<lparr>pr_diff = diff,
        comments = fst (aggregate_comments (concat (map fst
           (task_records rt diff t (review_tasks rt diff provider agents))))),
        summary = [],
        risk_score = snd (aggregate_comments (concat (map fst
           (task_records rt diff t (review_tasks rt diff provider agents))))),
        agent_metrics = map snd (task_records rt diff t (review_tasks rt diff provider agents)),
        total_duration_ms = total_ms rt\<rparr>)"
proof -
  let ?tasks = "review_tasks rt diff provider agents"
  have runs: "those (task_runs rt diff t ?tasks) = Some (map Inr (task_records rt diff t ?tasks))"
    unfolding task_runs_well_behaved[OF assms(2)] by (rule those_Some)
  show ?thesis using assms(1)
    unfolding run_review_def Let_def review_tasks_def[symmetric] runs
    by (simp add: collect_Inr split_def)
qed

text \<open>
  When every run ends and raises nothing outside \<^verbatim>\<open>Exception\<close>, the loop over the
  results adds one record for each run that returned a pair.
\<close>

lemma collect_contained:
  assumes "\<forall>run\<in>set runs. ends_contained run"
  shows "\<exists>results cs' ms'. those runs = Some results \<and> collect results (cs, ms) = Inr (cs', ms') \<and>
           length ms' = length ms + length (filter yields_record runs)"
  using assms
proof (induction runs arbitrary: cs ms)
  case Nil
  then show ?case by simp
next
  case (Cons run runs)
  from Cons.prems have rest: "\<forall>run\<in>set runs. ends_contained run" and this_run: "ends_contained run"
    by auto
  from this_run obtain res where run: "run = Some res" by (cases run) (auto simp: ends_contained_def)
  show ?case
  proof (cases res)
    case (Inl e)
    then have exc: "isinstance e [Exception]" using this_run run by (simp add: ends_contained_def)
    from Cons.IH[OF rest, of cs ms] obtain results cs' ms' where
      "those runs = Some results" "collect results (cs, ms) = Inr (cs', ms')"
      "length ms' = length ms + length (filter yields_record runs)" by blast
    moreover have "\<not> yields_record (Some (Inl e))" by (simp add: yields_record_def)
    ultimately show ?thesis using run Inl exc by simp
  next
    case (Inr p)
    obtain found m where p: "p = (found, m)" by (cases p)
    from Cons.IH[OF rest, of "cs @ found" "ms @ [m]"] obtain results cs' ms' where
      "those runs = Some results" "collect results (cs @ found, ms @ [m]) = Inr (cs', ms')"
      "length ms' = length (ms @ [m]) + length (filter yields_record runs)" by blast
    moreover have "yields_record (Some (Inr (found, m)))" by (simp add: yields_record_def)
    ultimately show ?thesis using run Inr p by simp
  qed
qed

lemma run_review_contained:
  assumes "0 < mc"
    and "\<forall>run\<in>set (task_runs rt diff t (review_tasks rt diff provider agents)). ends_contained run"
  shows "\<exists>r. run_review rt diff provider agents mc t = Some (Inr r) \<and>
     length (agent_metrics r) =
       length (filter yields_record (task_runs rt diff t (review_tasks rt diff provider agents)))"
proof -
  let ?runs = "task_runs rt diff t (review_tasks rt diff provider agents)"
  from collect_contained[OF assms(2), of "[]" "[]"] obtain results cs' ms' where
    those: "those ?runs = Some results" and coll: "collect results ([], []) = Inr (cs', ms')"
    and len: "length ms' = length (filter yields_record ?runs)" by auto
  show ?thesis using assms(1) len
    unfolding run_review_def Let_def review_tasks_def[symmetric] those
    by (simp add: coll split_def)
qed

text \<open>
  C1, as stated, fails. One file, reviewed by the registered logic agent on a slow
  provider and by an agent whose own \<^verbatim>\<open>analyze\<close> raises \<^verbatim>\<open>ValueError\<close>: of the two
  tasks, the first times out and gives a record, the second raises, is logged and
  skipped. The result has one telemetry record for two tasks.
\<close>

theorem run_review_drops_raising_task_counterexample:
  "(case run_review test_runtime (test_pr_diff 1) SlowMockLLM
          (Some [LogicAgent test_runtime SlowMockLLM, BrokenAgent (Exn ValueError ''boom'')])
          4 (1 / 10) of
      Some (Inr r) \<Rightarrow>
        map metrics_agent_name (agent_metrics r) = [''logic_agent''] \<and>
        length (files (test_pr_diff 1)) *
          length [LogicAgent test_runtime SlowMockLLM, BrokenAgent (Exn ValueError ''boom'')] = 2
    | _ \<Rightarrow> False)"
  by (simp add: run_review_def task_runs_def build_tasks_def test_pr_diff_def
      run_agent_on_file_def call_analyze_def analyze_def LogicAgent_def registered_agent_def
      BrokenAgent_def SlowMockLLM_def test_runtime_def timeout_metrics_def isinstance_def
      aggregate_comments_def deduplicate_comments_def rank_comments_def compute_risk_score_def
      total_weight_def RISK_THRESHOLDS_low_def RISK_THRESHOLDS_medium_def RISK_THRESHOLDS_high_def
      upt_conv_Cons)

text \<open>
  C1, amended. With a semaphore of at least one slot (\<open>max_concurrent\<close> positive): when
  every task is well behaved or the timeout is 0 or less, \<^verbatim>\<open>run_review\<close> returns a
  result whose telemetry list has exactly N times M records, for N files and M agents
  (the four registered agents when none is given). More generally, when the run of
  every task ends and raises nothing outside \<^verbatim>\<open>Exception\<close>, it returns a result with
  one record for each task whose run returned or timed out, and none for a task that
  raised: at most N times M records.
\<close>

theorem run_review_one_record_per_contained_task:
  assumes "0 < max_concurrent"
  shows "((\<forall>(agent, f)\<in>set (review_tasks rt diff provider agents).
             t \<le> 0 \<or> well_behaved agent f diff t) \<longrightarrow>
          (\<exists>r. run_review rt diff provider agents max_concurrent t = Some (Inr r) \<and>
               length (agent_metrics r) =
                 length (files diff) *
                 length (case agents of None \<Rightarrow> create_all_agents rt provider
                         | Some given \<Rightarrow> given))) \<and>
         ((\<forall>run\<in>set (task_runs rt diff t (review_tasks rt diff provider agents)).
             ends_contained run) \<longrightarrow>
          (\<exists>r. run_review rt diff provider agents max_concurrent t = Some (Inr r) \<and>
               length (agent_metrics r) =
                 length (filter yields_record
                   (task_runs rt diff t (review_tasks rt diff provider agents))) \<and>
               length (agent_metrics r) \<le>
                 length (files diff) *
                 length (case agents of None \<Rightarrow> create_all_agents rt provider
                         | Some given \<Rightarrow> given)))"
proof (intro conjI impI)
  assume "\<forall>(agent, f)\<in>set (review_tasks rt diff provider agents).
             t \<le> 0 \<or> well_behaved agent f diff t"
  from run_review_well_behaved[OF assms this]
  show "\<exists>r. run_review rt diff provider agents max_concurrent t = Some (Inr r) \<and>
               length (agent_metrics r) =
                 length (files diff) *
                 length (case agents of None \<Rightarrow> create_all_agents rt provider
                         | Some given \<Rightarrow> given)"
    by (simp add: length_task_records length_review_tasks)
next
  let ?runs = "task_runs rt diff t (review_tasks rt diff provider agents)"
  assume "\<forall>run\<in>set ?runs. ends_contained run"
  from run_review_contained[OF assms this] obtain r where
    r: "run_review rt diff provider agents max_concurrent t = Some (Inr r)"
    "length (agent_metrics r) = length (filter yields_record ?runs)" by blast
  have "length (filter yields_record ?runs) \<le> length ?runs" by (rule length_filter_le)
  then have "length (agent_metrics r) \<le>
      length (files diff) *
      length (case agents of None \<Rightarrow> create_all_agents rt provider | Some given \<Rightarrow> given)"
    using r(2) by (simp add: length_task_runs length_review_tasks)
  with r show "\<exists>r. run_review rt diff provider agents max_concurrent t = Some (Inr r) \<and>
               length (agent_metrics r) = length (filter yields_record ?runs) \<and>
               length (agent_metrics r) \<le>
                 length (files diff) *
                 length (case agents of None \<Rightarrow> create_all_agents rt provider
                         | Some given \<Rightarrow> given)"
    by blast
qed

lemma slow_well_behaved:
  "well_behaved (registered_agent test_runtime n c SlowMockLLM) f d (1 / 10)"
  by (simp add: well_behaved_def registered_agent_def SlowMockLLM_def)

lemma slow_tasks_2:
  "review_tasks test_runtime (test_pr_diff 2) SlowMockLLM None =
     [(LogicAgent test_runtime SlowMockLLM, files (test_pr_diff 2) ! 0),
      (ReadabilityAgent test_runtime SlowMockLLM, files (test_pr_diff 2) ! 0),
      (PerformanceAgent test_runtime SlowMockLLM, files (test_pr_diff 2) ! 0),
      (SecurityAgent test_runtime SlowMockLLM, files (test_pr_diff 2) ! 0),
      (LogicAgent test_runtime SlowMockLLM, files (test_pr_diff 2) ! 1),
      (ReadabilityAgent test_runtime SlowMockLLM, files (test_pr_diff 2) ! 1),
      (PerformanceAgent test_runtime SlowMockLLM, files (test_pr_diff 2) ! 1),
      (SecurityAgent test_runtime SlowMockLLM, files (test_pr_diff 2) ! 1)]"
  by (simp add: review_tasks_def build_tasks_def create_all_agents_def test_pr_diff_def
      upt_conv_Cons)

lemma slow_tasks_1:
  "review_tasks test_runtime (test_pr_diff 1) SlowMockLLM None =
     [(LogicAgent test_runtime SlowMockLLM, hd (files (test_pr_diff 1))),
      (ReadabilityAgent test_runtime SlowMockLLM, hd (files (test_pr_diff 1))),
      (PerformanceAgent test_runtime SlowMockLLM, hd (files (test_pr_diff 1))),
      (SecurityAgent test_runtime SlowMockLLM, hd (files (test_pr_diff 1)))]"
  by (simp add: review_tasks_def build_tasks_def create_all_agents_def test_pr_diff_def)

lemma broken_runs:
  "task_runs test_runtime (test_pr_diff 1) (1 / 10)
     (review_tasks test_runtime (test_pr_diff 1) SlowMockLLM
        (Some [LogicAgent test_runtime SlowMockLLM, BrokenAgent (Exn ValueError ''boom'')])) =
     [Some (Inr ([], timeout_metrics (\<lambda>t. ''0.1'') (LogicAgent test_runtime SlowMockLLM) (1 / 10))),
      Some (Inl (Exn ValueError ''boom''))]"
  by (simp add: review_tasks_def task_runs_def build_tasks_def test_pr_diff_def
      run_agent_on_file_def call_analyze_def analyze_def LogicAgent_def registered_agent_def
      BrokenAgent_def SlowMockLLM_def test_runtime_def isinstance_def upt_conv_Cons)

text \<open>
  Two files and the four registered agents on a provider whose every call is cancelled
  at the timeout: eight well-behaved tasks, eight records. One file with the logic
  agent and an agent whose \<^verbatim>\<open>analyze\<close> raises \<^verbatim>\<open>ValueError\<close>: both runs end, one
  yields a record.
\<close>

theorem run_review_one_record_per_contained_task_witness:
  "(0::int) < 4 \<and>
   map (\<lambda>(agent, f). well_behaved agent f (test_pr_diff 2) (1 / 10))
     (review_tasks test_runtime (test_pr_diff 2) SlowMockLLM None) =
     [True, True, True, True, True, True, True, True] \<and>
   (\<exists>r. run_review test_runtime (test_pr_diff 2) SlowMockLLM None 4 (1 / 10) = Some (Inr r) \<and>
        length (agent_metrics r) = 8) \<and>
   map ends_contained
     (task_runs test_runtime (test_pr_diff 1) (1 / 10)
        (review_tasks test_runtime (test_pr_diff 1) SlowMockLLM
           (Some [LogicAgent test_runtime SlowMockLLM, BrokenAgent (Exn ValueError ''boom'')]))) =
     [True, True] \<and>
   map yields_record
     (task_runs test_runtime (test_pr_diff 1) (1 / 10)
        (review_tasks test_runtime (test_pr_diff 1) SlowMockLLM
           (Some [LogicAgent test_runtime SlowMockLLM, BrokenAgent (Exn ValueError ''boom'')]))) =
     [True, False] \<and>
   (\<exists>r. run_review test_runtime (test_pr_diff 1) SlowMockLLM
           (Some [LogicAgent test_runtime SlowMockLLM, BrokenAgent (Exn ValueError ''boom'')])
           4 (1 / 10) = Some (Inr r) \<and>
        length (agent_metrics r) = 1)"
proof -
  let ?two = "Some [LogicAgent test_runtime SlowMockLLM, BrokenAgent (Exn ValueError ''boom'')]"
  have h: "(0::int) < 4" by simp
  have wb_list: "map (\<lambda>(agent, f). well_behaved agent f (test_pr_diff 2) (1 / 10))
     (review_tasks test_runtime (test_pr_diff 2) SlowMockLLM None) =
     [True, True, True, True, True, True, True, True]"
    unfolding slow_tasks_2
    by (simp add: LogicAgent_def ReadabilityAgent_def PerformanceAgent_def SecurityAgent_def
        slow_well_behaved)
  have wb: "\<forall>(agent, f)\<in>set (review_tasks test_runtime (test_pr_diff 2) SlowMockLLM None).
      1 / 10 \<le> (0::real) \<or> well_behaved agent f (test_pr_diff 2) (1 / 10)"
    unfolding slow_tasks_2
    by (simp add: LogicAgent_def ReadabilityAgent_def PerformanceAgent_def SecurityAgent_def
        slow_well_behaved)
  note T1 = run_review_one_record_per_contained_task
      [OF h, of test_runtime "test_pr_diff 2" SlowMockLLM None "1 / 10", THEN conjunct1, THEN mp, OF wb]
  have eight: "\<exists>r. run_review test_runtime (test_pr_diff 2) SlowMockLLM None 4 (1 / 10) = Some (Inr r) \<and>
        length (agent_metrics r) = 8"
    using T1 by (simp add: test_pr_diff_def create_all_agents_def)
  have ends: "map ends_contained
     (task_runs test_runtime (test_pr_diff 1) (1 / 10)
        (review_tasks test_runtime (test_pr_diff 1) SlowMockLLM ?two)) = [True, True]"
    unfolding broken_runs by (simp add: ends_contained_def isinstance_def)
  have yields: "map yields_record
     (task_runs test_runtime (test_pr_diff 1) (1 / 10)
        (review_tasks test_runtime (test_pr_diff 1) SlowMockLLM ?two)) = [True, False]"
    unfolding broken_runs by (simp add: yields_record_def)
  have contained: "\<forall>run\<in>set (task_runs test_runtime (test_pr_diff 1) (1 / 10)
        (review_tasks test_runtime (test_pr_diff 1) SlowMockLLM ?two)). ends_contained run"
    unfolding broken_runs by (simp add: ends_contained_def isinstance_def)
  note T2 = run_review_one_record_per_contained_task
      [OF h, of test_runtime "test_pr_diff 1" SlowMockLLM ?two "1 / 10", THEN conjunct2, THEN mp, OF contained]
  have one: "\<exists>r. run_review test_runtime (test_pr_diff 1) SlowMockLLM ?two 4 (1 / 10) = Some (Inr r) \<and>
        length (agent_metrics r) = 1"
    using T2 unfolding broken_runs by (auto simp: yields_record_def)
  show ?thesis using h wb_list eight ends yields one by blast
qed

lemma task_record_cases:
  assumes "0 < t" "well_behaved agent f ctx t" "task_record sf agent f ctx t dur = (cs, m)"
  shows "(\<forall>e. task_failure agent f ctx t = Some (Threw e) \<longrightarrow>
            cs = [] \<and> error m = Some (str_exn e)) \<and>
         (task_failure agent f ctx t = Some TimedOut \<longrightarrow>
            cs = [] \<and> error m = Some (''Timeout after '' @ sf t @ ''s'')) \<and>
         (task_failure agent f ctx t = None \<longrightarrow> error m = None) \<and>
         task_failure agent f ctx t \<noteq> Some Hung"
  using assms
  by (auto simp: task_record_def analyze_def task_failure_def well_behaved_def contain_def
      failed_metrics_def timeout_metrics_def split: sum.splits awaited.splits)

lemma task_record_no_time:
  "t \<le> 0 \<Longrightarrow> task_record sf agent f ctx t dur = ([], timeout_metrics sf agent t)"
  by (simp add: task_record_def)

lemma task_records_nth:
  assumes "i < length tasks" "tasks ! i = (agent, f)"
  shows "task_records rt diff t tasks ! i =
           task_record (str_float rt) agent f diff t (task_duration rt i)"
  using assms by (simp add: task_records_def)

lemma task_records_failed:
  assumes wb: "\<forall>(agent, f)\<in>set tasks. t \<le> 0 \<or> well_behaved agent f diff t"
    and failed: "t \<le> 0 \<or> (\<forall>(agent, f)\<in>set tasks. task_failure agent f diff t \<noteq> None)"
    and p: "p \<in> set (task_records rt diff t tasks)"
  shows "fst p = [] \<and> error (snd p) \<noteq> None"
proof -
  from p obtain i where i: "i < length tasks" and pi: "p = task_records rt diff t tasks ! i"
    by (auto simp: in_set_conv_nth length_task_records)
  obtain agent f where af: "tasks ! i = (agent, f)" by (cases "tasks ! i")
  then have mem: "(agent, f) \<in> set tasks" using i by (metis nth_mem)
  have rec: "p = task_record (str_float rt) agent f diff t (task_duration rt i)"
    using task_records_nth[OF i af, of rt diff t] pi by simp
  show ?thesis
  proof (cases "t \<le> 0")
    case True
    then show ?thesis unfolding rec by (simp add: task_record_no_time timeout_metrics_def)
  next
    case False
    then have pos: "0 < t" by simp
    from wb mem False have w: "well_behaved agent f diff t" by auto
    from failed mem False obtain a where a: "task_failure agent f diff t = Some a" by auto
    have eq: "task_record (str_float rt) agent f diff t (task_duration rt i) = (fst p, snd p)"
      using rec by simp
    note cases = task_record_cases[OF pos w eq]
    show ?thesis
    proof (cases a)
      case (Threw e)
      with a cases show ?thesis by simp
    next
      case TimedOut
      with a cases show ?thesis by simp
    next
      case Hung
      with a cases show ?thesis by simp
    qed
  qed
qed

text \<open>
  C2, as stated, fails: when the upstream call of every task raises
  \<^verbatim>\<open>LLMRateLimitError()\<close>, an exception without a message, the run returns four
  telemetry records whose error field is the empty string.
\<close>

theorem run_review_empty_error_counterexample:
  "(case run_review test_runtime (test_pr_diff 1) (MockLLM_error (Exn LLMRateLimitError [])) None 4 60 of
      Some (Inr r) \<Rightarrow> map error (agent_metrics r) = [Some [], Some [], Some [], Some []]
    | _ \<Rightarrow> False)"
  by (simp add: run_review_def task_runs_def build_tasks_def create_all_agents_def test_pr_diff_def
      LogicAgent_def ReadabilityAgent_def PerformanceAgent_def SecurityAgent_def
      registered_agent_def MockLLM_error_def test_runtime_def run_agent_on_file_def
      call_analyze_def analyze_def contain_def failed_metrics_def isinstance_def
      aggregate_comments_def deduplicate_comments_def rank_comments_def compute_risk_score_def
      total_weight_def RISK_THRESHOLDS_low_def RISK_THRESHOLDS_medium_def RISK_THRESHOLDS_high_def
      upt_conv_Cons)

text \<open>
  C2, amended. With a semaphore of at least one slot, when every task is well behaved
  or the timeout is 0 or less, \<^verbatim>\<open>run_review\<close> returns a result and does not raise,
  with one telemetry record per task, in the order of the tasks. For a positive
  timeout, a task in which prompt building, the upstream call or response parsing
  raises \<open>e\<close> has the error field \<^verbatim>\<open>str(e)\<close>, which is empty when \<open>e\<close> has no message;
  a task that times out has the error field \<^verbatim>\<open>Timeout after ...s\<close>, which is not
  empty; a task that succeeds has none. For a timeout of 0 or less every task has the
  timeout record. When every task fails, the result has no findings, the risk level
  low, and the error field is set in every record.
\<close>

theorem run_review_records_task_failures:
  assumes "0 < max_concurrent"
    and "\<forall>(agent, f)\<in>set (review_tasks rt diff provider agents). t \<le> 0 \<or> well_behaved agent f diff t"
  shows "\<exists>r. run_review rt diff provider agents max_concurrent t = Some (Inr r) \<and>
     length (agent_metrics r) = length (review_tasks rt diff provider agents) \<and>
     (\<forall>i agent f.
        i < length (review_tasks rt diff provider agents) \<and>
        review_tasks rt diff provider agents ! i = (agent, f) \<longrightarrow>
        (t \<le> 0 \<longrightarrow>
           error (agent_metrics r ! i) = Some (''Timeout after '' @ str_float rt t @ ''s'')) \<and>
        (0 < t \<longrightarrow>
           (\<forall>e. task_failure agent f diff t = Some (Threw e) \<longrightarrow>
                 error (agent_metrics r ! i) = Some (str_exn e)) \<and>
           (task_failure agent f diff t = Some TimedOut \<longrightarrow>
                 error (agent_metrics r ! i) = Some (''Timeout after '' @ str_float rt t @ ''s'') \<and>
                 error (agent_metrics r ! i) \<noteq> Some []) \<and>
           (task_failure agent f diff t = None \<longrightarrow> error (agent_metrics r ! i) = None))) \<and>
     ((t \<le> 0 \<or> (\<forall>(agent, f)\<in>set (review_tasks rt diff provider agents).
                    task_failure agent f diff t \<noteq> None)) \<longrightarrow>
        comments r = [] \<and> risk_score r = RISK_LOW \<and>
        (\<forall>m\<in>set (agent_metrics r). error m \<noteq> None))"
proof -
  let ?tasks = "review_tasks rt diff provider agents"
  let ?res = "task_records rt diff t ?tasks"
  let ?r = "\<lparr>pr_diff = diff,
        comments = fst (aggregate_comments (concat (map fst ?res))),
        summary = [],
        risk_score = snd (aggregate_comments (concat (map fst ?res))),
        agent_metrics = map snd ?res,
        total_duration_ms = total_ms rt\<rparr>"
  have run: "run_review rt diff provider agents max_concurrent t = Some (Inr ?r)"
    by (rule run_review_well_behaved[OF assms])
  have len: "length (agent_metrics ?r) = length ?tasks"
    by (simp add: length_task_records)
  have each: "(t \<le> 0 \<longrightarrow>
           error (agent_metrics ?r ! i) = Some (''Timeout after '' @ str_float rt t @ ''s'')) \<and>
        (0 < t \<longrightarrow>
           (\<forall>e. task_failure agent f diff t = Some (Threw e) \<longrightarrow>
                 error (agent_metrics ?r ! i) = Some (str_exn e)) \<and>
           (task_failure agent f diff t = Some TimedOut \<longrightarrow>
                 error (agent_metrics ?r ! i) = Some (''Timeout after '' @ str_float rt t @ ''s'') \<and>
                 error (agent_metrics ?r ! i) \<noteq> Some []) \<and>
           (task_failure agent f diff t = None \<longrightarrow> error (agent_metrics ?r ! i) = None))"
    if "i < length ?tasks \<and> ?tasks ! i = (agent, f)" for i agent f
  proof -
    from that have i: "i < length ?tasks" and af: "?tasks ! i = (agent, f)" by auto
    have mem: "(agent, f) \<in> set ?tasks" using i af by (metis nth_mem)
    have nth: "agent_metrics ?r ! i = snd (?res ! i)"
      using i by (simp add: length_task_records)
    have rec: "?res ! i = task_record (str_float rt) agent f diff t (task_duration rt i)"
      by (rule task_records_nth[OF i af])
    show ?thesis
    proof (cases "t \<le> 0")
      case True
      then show ?thesis unfolding nth rec by (simp add: task_record_no_time timeout_metrics_def)
    next
      case False
      then have pos: "0 < t" by simp
      from assms(2) mem False have w: "well_behaved agent f diff t" by auto
      have "task_record (str_float rt) agent f diff t (task_duration rt i) =
          (fst (?res ! i), snd (?res ! i))" using rec by simp
      from task_record_cases[OF pos w this] pos show ?thesis unfolding nth by auto
    qed
  qed
  have failed: "comments ?r = [] \<and> risk_score ?r = RISK_LOW \<and>
        (\<forall>m\<in>set (agent_metrics ?r). error m \<noteq> None)"
    if all: "t \<le> 0 \<or> (\<forall>(agent, f)\<in>set ?tasks. task_failure agent f diff t \<noteq> None)"
  proof -
    have none: "concat (map fst ?res) = []"
      using task_records_failed[OF assms(2) all] by (simp add: concat_eq_Nil_conv)
    have "\<forall>m\<in>set (map snd ?res). error m \<noteq> None"
      using task_records_failed[OF assms(2) all] by auto
    then show ?thesis unfolding none
      by (simp add: aggregate_comments_def deduplicate_comments_def rank_comments_def
          compute_risk_score_def total_weight_def RISK_THRESHOLDS_low_def
          RISK_THRESHOLDS_medium_def RISK_THRESHOLDS_high_def)
  qed
  show ?thesis
    apply (rule exI[of _ ?r])
    using run len each failed by blast
qed

text \<open>
  One file and the four registered agents on a provider whose every call is cancelled
  at the timeout of 0.1 seconds: the four tasks are well behaved and every one fails,
  and the run returns no findings, the level low and four records with the timeout
  error.
\<close>

theorem run_review_records_task_failures_witness:
  "(0::int) < 4 \<and>
   map (\<lambda>(agent, f). well_behaved agent f (test_pr_diff 1) (1 / 10))
     (review_tasks test_runtime (test_pr_diff 1) SlowMockLLM None) = [True, True, True, True] \<and>
   map (\<lambda>(agent, f). task_failure agent f (test_pr_diff 1) (1 / 10))
     (review_tasks test_runtime (test_pr_diff 1) SlowMockLLM None) =
     [Some TimedOut, Some TimedOut, Some TimedOut, Some TimedOut] \<and>
   (\<exists>r. run_review test_runtime (test_pr_diff 1) SlowMockLLM None 4 (1 / 10) = Some (Inr r) \<and>
        length (agent_metrics r) = 4 \<and>
        error (agent_metrics r ! 0) = Some ''Timeout after 0.1s'' \<and>
        comments r = [] \<and> risk_score r = RISK_LOW \<and>
        list_all (\<lambda>m. error m \<noteq> None) (agent_metrics r))"
proof -
  let ?tasks = "review_tasks test_runtime (test_pr_diff 1) SlowMockLLM None"
  have h: "(0::int) < 4" by simp
  have slow: "task_failure (registered_agent test_runtime n c SlowMockLLM) f d (1 / 10) = Some TimedOut"
    for n c f d
    by (simp add: task_failure_def registered_agent_def SlowMockLLM_def)
  have wb_list: "map (\<lambda>(agent, f). well_behaved agent f (test_pr_diff 1) (1 / 10)) ?tasks =
      [True, True, True, True]"
    unfolding slow_tasks_1
    by (simp add: LogicAgent_def ReadabilityAgent_def PerformanceAgent_def SecurityAgent_def
        slow_well_behaved)
  have wb: "\<forall>(agent, f)\<in>set ?tasks. 1 / 10 \<le> (0::real) \<or> well_behaved agent f (test_pr_diff 1) (1 / 10)"
    unfolding slow_tasks_1
    by (simp add: LogicAgent_def ReadabilityAgent_def PerformanceAgent_def SecurityAgent_def
        slow_well_behaved)
  have failures: "map (\<lambda>(agent, f). task_failure agent f (test_pr_diff 1) (1 / 10)) ?tasks =
     [Some TimedOut, Some TimedOut, Some TimedOut, Some TimedOut]"
    unfolding slow_tasks_1
    by (simp add: LogicAgent_def ReadabilityAgent_def PerformanceAgent_def SecurityAgent_def slow)
  have all': "1 / 10 \<le> (0::real) \<or>
      (\<forall>(agent, f)\<in>set ?tasks. task_failure agent f (test_pr_diff 1) (1 / 10) \<noteq> None)"
    unfolding slow_tasks_1
    by (simp add: LogicAgent_def ReadabilityAgent_def PerformanceAgent_def SecurityAgent_def slow)
  note T = run_review_records_task_failures[OF h wb]
  from T obtain r where
    run: "run_review test_runtime (test_pr_diff 1) SlowMockLLM None 4 (1 / 10) = Some (Inr r)"
    and len: "length (agent_metrics r) = length ?tasks"
    and each: "\<forall>i agent f. i < length ?tasks \<and> ?tasks ! i = (agent, f) \<longrightarrow>
        (1 / 10 \<le> (0::real) \<longrightarrow>
           error (agent_metrics r ! i) =
             Some (''Timeout after '' @ str_float test_runtime (1 / 10) @ ''s'')) \<and>
        ((0::real) < 1 / 10 \<longrightarrow>
           (\<forall>e. task_failure agent f (test_pr_diff 1) (1 / 10) = Some (Threw e) \<longrightarrow>
                 error (agent_metrics r ! i) = Some (str_exn e)) \<and>
           (task_failure agent f (test_pr_diff 1) (1 / 10) = Some TimedOut \<longrightarrow>
                 error (agent_metrics r ! i) =
                   Some (''Timeout after '' @ str_float test_runtime (1 / 10) @ ''s'') \<and>
                 error (agent_metrics r ! i) \<noteq> Some []) \<and>
           (task_failure agent f (test_pr_diff 1) (1 / 10) = None \<longrightarrow>
                 error (agent_metrics r ! i) = None))"
    and failed: "(1 / 10 \<le> (0::real) \<or>
           (\<forall>(agent, f)\<in>set ?tasks. task_failure agent f (test_pr_diff 1) (1 / 10) \<noteq> None)) \<longrightarrow>
        comments r = [] \<and> risk_score r = RISK_LOW \<and> (\<forall>m\<in>set (agent_metrics r). error m \<noteq> None)"
    by blast
  have t0: "0 < length ?tasks \<and>
      ?tasks ! 0 = (LogicAgent test_runtime SlowMockLLM, hd (files (test_pr_diff 1)))"
    unfolding slow_tasks_1 by simp
  have s0: "task_failure (LogicAgent test_runtime SlowMockLLM) (hd (files (test_pr_diff 1)))
      (test_pr_diff 1) (1 / 10) = Some TimedOut"
    by (simp add: LogicAgent_def slow)
  have first: "error (agent_metrics r ! 0) = Some ''Timeout after 0.1s''"
    using each[rule_format, OF t0] s0 by (simp add: test_runtime_def)
  have "length (agent_metrics r) = 4" using len unfolding slow_tasks_1 by simp
  moreover have "comments r = [] \<and> risk_score r = RISK_LOW \<and>
      list_all (\<lambda>m. error m \<noteq> None) (agent_metrics r)"
    using failed all' by (simp add: list_all_iff)
  ultimately show ?thesis using h wb_list failures run first by blast
qed

end
